theory Spec2Isabelle
  imports Main
begin

section \<open>The key-value persistent store\<close>

text \<open>
  Both services keep their data in AsyncStorage, one JSON text per key. The embedding holds
  the parsed content of every key the two services own, typed as the code reads it back
  (\<open>None\<close> is a key that holds nothing), and every other key of the store as raw
  text in \<open>other_keys\<close>.

  AsyncStorage calls are fallible. The store carries the outcome of every future call:
  \<open>fault s n\<close> is the message of the exception the \<open>n\<close>-th storage call raises, or
  \<open>None\<close> when that call succeeds, and \<open>clock s\<close> counts the calls made so far. A
  fault of a read also stands for an exception raised while the text that was read is
  parsed and used (a text that is not JSON, or not of the expected shape): the code has
  the read and its uses inside the same \<open>try\<close>.

  A rejected promise is a result \<open>Inl\<close> with the message of the error. Console output
  and the time a call takes are not part of the embedding; \<open>new Date().toISOString()\<close>
  is the parameter \<open>now\<close> of the functions that stamp what they write.
\<close>

datatype status = pending | syncing | synced | failed

text \<open>The survey body embedded in an interview; only its \<open>surveyName\<close> is read.\<close>

record survey_body =
  survey_surveyName :: "string option"
  survey_rest :: string

text \<open>
  \<open>OfflineInterview\<close>. An absent (\<open>undefined\<close>) field is \<open>None\<close>; \<open>survey: null\<close>
  is \<open>None\<close> as well. The fields the services never inspect (responses, location,
  timestamps, audio reference, metadata) are the opaque \<open>rest\<close>.
\<close>

record interview =
  id_of :: "string option"
  status :: "status option"
  survey :: "survey_body option"
  surveyName :: "string option"
  syncAttempts :: "nat option"
  lastSyncAttempt :: "string option"
  error :: "string option"
  rest :: string

text \<open>
  An element of the stored interview array, as \<open>JSON.parse\<close> returns it: an object, or
  something that is not an object (\<open>null\<close>, a number, a string, a boolean). An id is
  a string or absent.
\<close>

datatype entry = NonObject | Obj interview

text \<open>
  An element of a cached list of assembly constituencies (\<open>any[]\<close> in the source): a
  string, an object, or anything else.
\<close>

record ac_summary =
  item_acCode :: "string option"
  item_acName :: "string option"
  item_name :: "string option"
  item_displayText :: "string option"
  item_searchText :: "string option"

datatype ac_item = AcString string | AcObject ac_summary | AcOther

record acs_entry =
  acs :: "ac_item list option"
  cachedAt :: string

text \<open>A group in the answer of \<open>getGroupsByAC\<close>: a string or an object.\<close>

record group_obj =
  group_name :: "string option"
  group_groupName :: "string option"
  group_group :: "string option"
  group_value :: "string option"

datatype group_item = GroupString string | GroupObject group_obj | GroupOther

text \<open>An entry of the polling-groups cache: the data of the answer, then the key fields.\<close>

record polling_group =
  ac_name :: "string option"
  groups :: "group_item list option"
  pg_rest :: string
  pg_state :: "string option"
  pg_acIdentifier :: "string option"
  pg_cachedAt :: "string option"

record polling_station =
  ps_data :: string
  ps_state :: string
  ps_acIdentifier :: string
  ps_groupName :: string
  ps_cachedAt :: string

record survey_cached =
  sc_data :: string
  sc_surveyId :: "string option"
  sc_cachedAt :: string

record user_cached =
  uc_user :: string
  uc_cachedAt :: string

text \<open>
  The content of the store. A JavaScript object used as a dictionary is an association
  list in insertion order where the code iterates over it, and a map where it does not.
  Its keys are ordinary keys: the names every JavaScript object inherits
  (\<open>__proto__\<close>, \<open>constructor\<close>) are keys like any other here.
\<close>

record store =
  offline_interviews :: "entry list option"
  all_acs_for_state :: "(string \<rightharpoonup> acs_entry) option"
  polling_groups :: "(string \<times> polling_group) list option"
  polling_stations :: "(string \<times> polling_station) list option"
  gender_quotas :: "(string option \<rightharpoonup> survey_cached) option"
  cati_set_numbers :: "(string option \<rightharpoonup> survey_cached) option"
  user_data :: "user_cached option"
  other_keys :: "string \<rightharpoonup> string"
  clock :: nat
  fault :: "nat \<Rightarrow> string option"

definition tick :: "store \<Rightarrow> store" where
  "tick s = s\<lparr>clock := Suc (clock s)\<rparr>"

text \<open>\<open>AsyncStorage.getItem\<close> followed by \<open>JSON.parse\<close>; \<open>Inl\<close> is the exception.\<close>

definition getItem :: "(store \<Rightarrow> 'v option) \<Rightarrow> store \<Rightarrow> (string + 'v option) \<times> store" where
  "getItem sel s =
     (case fault s (clock s) of
        Some m \<Rightarrow> (Inl m, tick s)
      | None \<Rightarrow> (Inr (sel s), tick s))"

text \<open>\<open>AsyncStorage.setItem(key, JSON.stringify(v))\<close>.\<close>

definition setItem ::
  "(('v option \<Rightarrow> 'v option) \<Rightarrow> store \<Rightarrow> store) \<Rightarrow> 'v \<Rightarrow> store \<Rightarrow> (string + unit) \<times> store" where
  "setItem upd v s =
     (case fault s (clock s) of
        Some m \<Rightarrow> (Inl m, tick s)
      | None \<Rightarrow> (Inr (), tick (upd (\<lambda>_. Some v) s)))"

text \<open>\<open>AsyncStorage.removeItem(key)\<close>.\<close>

definition removeItem ::
  "(('v option \<Rightarrow> 'v option) \<Rightarrow> store \<Rightarrow> store) \<Rightarrow> store \<Rightarrow> (string + unit) \<times> store" where
  "removeItem upd s =
     (case fault s (clock s) of
        Some m \<Rightarrow> (Inl m, tick s)
      | None \<Rightarrow> (Inr (), tick (upd (\<lambda>_. None) s)))"

text \<open>A store none of whose future calls fails.\<close>

definition healthy :: "store \<Rightarrow> bool" where
  "healthy s = (\<forall>n. fault s n = None)"

section \<open>JavaScript strings\<close>

fun startsWith :: "string \<Rightarrow> string \<Rightarrow> bool" where
  "startsWith s [] = True"
| "startsWith [] (p # ps) = False"
| "startsWith (c # cs) (p # ps) = (c = p \<and> startsWith cs ps)"

text \<open>\<open>s.includes(t)\<close>: \<open>t\<close> occurs in \<open>s\<close> as a contiguous substring.\<close>

fun includes_str :: "string \<Rightarrow> string \<Rightarrow> bool" where
  "includes_str [] t = (t = [])"
| "includes_str (c # cs) t = (startsWith (c # cs) t \<or> includes_str cs t)"

text \<open>JavaScript truthiness of an optional string: present and not empty.\<close>

definition truthy :: "string option \<Rightarrow> bool" where
  "truthy x = (case x of None \<Rightarrow> False | Some v \<Rightarrow> v \<noteq> [])"

text \<open>The characters of the regular expression class \<open>\s\<close>, within ASCII.\<close>

definition is_space :: "char \<Rightarrow> bool" where
  "is_space c = (c \<in> set [CHR '' '', CHR 0x09, CHR 0x0A, CHR 0x0B, CHR 0x0C, CHR 0x0D])"

definition trim :: "string \<Rightarrow> string" where
  "trim s = rev (dropWhile is_space (rev (dropWhile is_space s)))"

text \<open>\<open>toLowerCase\<close>, on the ASCII letters.\<close>

definition toLowerChar :: "char \<Rightarrow> char" where
  "toLowerChar c =
     (case map_of (zip ''ABCDEFGHIJKLMNOPQRSTUVWXYZ'' ''abcdefghijklmnopqrstuvwxyz'') c of
        Some l \<Rightarrow> l
      | None \<Rightarrow> c)"

definition toLowerCase :: "string \<Rightarrow> string" where
  "toLowerCase s = map toLowerChar s"

text \<open>
  \<open>s.replace(/\s+/g, ' ')\<close>: every maximal run of white space becomes one space. The
  flag says that the previous character was white space.
\<close>

fun collapse_from :: "bool \<Rightarrow> string \<Rightarrow> string" where
  "collapse_from b [] = []"
| "collapse_from b (c # cs) =
     (if is_space c
      then (if b then collapse_from True cs else CHR '' '' # collapse_from True cs)
      else c # collapse_from False cs)"

definition collapse_ws :: "string \<Rightarrow> string" where
  "collapse_ws s = collapse_from False s"

text \<open>
  One match of \<open>/\s*\([^)]*\)\s*/\<close> at the head of the string: white space, an opening
  parenthesis, everything up to the first closing parenthesis, white space. The result
  is what follows the match.
\<close>

definition paren_match :: "string \<Rightarrow> string option" where
  "paren_match s =
     (case dropWhile is_space s of
        [] \<Rightarrow> None
      | c # t \<Rightarrow>
          if c = CHR ''(''
          then (case dropWhile (\<lambda>d. d \<noteq> CHR '')'') t of
                  [] \<Rightarrow> None
                | d # v \<Rightarrow> Some (dropWhile is_space v))
          else None)"

text \<open>
  \<open>s.replace(/\s*\([^)]*\)\s*/g, '')\<close>: the matches are found from left to right and
  removed. The number is that of the characters of the current match still to remove.
\<close>

fun strip_from :: "nat \<Rightarrow> string \<Rightarrow> string" where
  "strip_from k [] = []"
| "strip_from (Suc k) (c # cs) = strip_from k cs"
| "strip_from 0 (c # cs) =
     (case paren_match (c # cs) of
        Some r \<Rightarrow> strip_from (length cs - length r) cs
      | None \<Rightarrow> c # strip_from 0 cs)"

definition strip_parens :: "string \<Rightarrow> string" where
  "strip_parens s = strip_from 0 s"

text \<open>\<open>/^\d+$/.test(s)\<close>.\<close>

definition all_digits :: "string \<Rightarrow> bool" where
  "all_digits s = (s \<noteq> [] \<and> list_all (\<lambda>c. c \<in> set ''0123456789'') s)"

text \<open>\<open>s.replace(p, '')\<close> for a string \<open>p\<close>: the first occurrence of \<open>p\<close> is removed.\<close>

fun remove_first :: "string \<Rightarrow> string \<Rightarrow> string" where
  "remove_first [] p = []"
| "remove_first (c # cs) p =
     (if startsWith (c # cs) p then drop (length p) (c # cs) else c # remove_first cs p)"

section \<open>Interview record store (OfflineStorageService)\<close>

text \<open>
  The filter of \<open>getOfflineInterviews\<close>. \<open>jsize i\<close> is \<open>JSON.stringify(i).length\<close>, the
  length of the platform's serialization of the entry; it is a parameter of the embedding.
\<close>

definition valid_entry :: "(interview \<Rightarrow> nat) \<Rightarrow> entry \<Rightarrow> bool" where
  "valid_entry jsize e =
     (case e of
        NonObject \<Rightarrow> False
      | Obj i \<Rightarrow>
          if \<not> truthy (id_of i) then False
          else if jsize i > 2000000 then False
          else True)"

text \<open>
  The objects among the entries. What the read returns has passed the filter and holds
  objects only, so it is a list of interviews.
\<close>

fun objs :: "entry list \<Rightarrow> interview list" where
  "objs [] = []"
| "objs (NonObject # es) = objs es"
| "objs (Obj i # es) = i # objs es"

definition getOfflineInterviews :: "(interview \<Rightarrow> nat) \<Rightarrow> store \<Rightarrow> interview list \<times> store" where
  "getOfflineInterviews jsize s =
     (case getItem offline_interviews s of
        (Inr None, s1) \<Rightarrow> ([], s1)
      | (Inr (Some interviews), s1) \<Rightarrow>
          (let validInterviews = filter (valid_entry jsize) interviews
           in if length validInterviews < length interviews
              then (case setItem offline_interviews_update validInterviews s1 of
                      (r, s2) \<Rightarrow> (objs validInterviews, s2))
              else (objs validInterviews, s1))
      | (Inl m, s1) \<Rightarrow>
          if includes_str m ''Row too big''
          then (case removeItem offline_interviews_update s1 of
                  (r, s2) \<Rightarrow> ([], s2))
          else ([], s1))"

definition getPendingInterviews :: "(interview \<Rightarrow> nat) \<Rightarrow> store \<Rightarrow> interview list \<times> store" where
  "getPendingInterviews jsize s =
     (case getOfflineInterviews jsize s of
        (interviews, s1) \<Rightarrow>
          (filter (\<lambda>i. status i = None \<or> status i = Some pending \<or> status i = Some failed)
             interviews, s1))"

definition getOfflineInterviewById ::
  "(interview \<Rightarrow> nat) \<Rightarrow> string \<Rightarrow> store \<Rightarrow> interview option \<times> store" where
  "getOfflineInterviewById jsize interviewId s =
     (case getOfflineInterviews jsize s of
        (interviews, s1) \<Rightarrow> (find (\<lambda>i. id_of i = Some interviewId) interviews, s1))"

text \<open>\<open>Array.prototype.findIndex\<close>, with \<open>None\<close> for \<open>-1\<close>.\<close>

fun findIndex :: "('a \<Rightarrow> bool) \<Rightarrow> 'a list \<Rightarrow> nat option" where
  "findIndex P [] = None"
| "findIndex P (x # xs) =
     (if P x then Some 0 else map_option Suc (findIndex P xs))"

text \<open>
  The object \<open>interviewToSave\<close> that \<open>saveOfflineInterview\<close> builds from its argument:
  \<open>{...interview, survey: null, surveyName: interview.surveyName || interview.survey?.surveyName || undefined}\<close>.
\<close>

definition interviewToSave :: "interview \<Rightarrow> interview" where
  "interviewToSave interview =
     interview
       \<lparr>survey := None,
        surveyName :=
          (if truthy (surveyName interview) then surveyName interview
           else case survey interview of
                  None \<Rightarrow> None
                | Some sv \<Rightarrow>
                    if truthy (survey_surveyName sv) then survey_surveyName sv else None)\<rparr>"

definition saveOfflineInterview ::
  "(interview \<Rightarrow> nat) \<Rightarrow> interview \<Rightarrow> store \<Rightarrow> (string + unit) \<times> store" where
  "saveOfflineInterview jsize interview s =
     (case getOfflineInterviews jsize s of
        (interviews, s1) \<Rightarrow>
          (let interviews' =
                 (case findIndex (\<lambda>i. id_of i = id_of interview) interviews of
                    Some existingIndex \<Rightarrow>
                      interviews[existingIndex := (interviewToSave interview)\<lparr>survey := None\<rparr>]
                  | None \<Rightarrow>
                      interviews @
                        [if status (interviewToSave interview) = None
                         then (interviewToSave interview)\<lparr>status := Some pending\<rparr>
                         else interviewToSave interview])
           in case setItem offline_interviews_update (map Obj interviews') s1 of
                (Inr u, s2) \<Rightarrow> (Inr (), s2)
              | (Inl m, s2) \<Rightarrow>
                  if includes_str m ''Row too big''
                  then (Inl ''Interview data too large to save. Please sync existing interviews first.'', s2)
                  else (Inl m, s2)))"

definition updateInterviewStatus ::
  "(interview \<Rightarrow> nat) \<Rightarrow> string \<Rightarrow> string \<Rightarrow> status \<Rightarrow> string option \<Rightarrow> store
     \<Rightarrow> (string + unit) \<times> store" where
  "updateInterviewStatus jsize now interviewId st err s =
     (case getOfflineInterviews jsize s of
        (interviews, s1) \<Rightarrow>
          (case find (\<lambda>i. id_of i = Some interviewId) interviews of
             None \<Rightarrow> (Inr (), s1)
           | Some interview \<Rightarrow>
               (let interview1 = interview\<lparr>status := Some st, lastSyncAttempt := Some now\<rparr>;
                    interview2 =
                      (if truthy err
                       then interview1
                              \<lparr>error := err,
                               syncAttempts :=
                                 Some ((case syncAttempts interview1 of None \<Rightarrow> 0 | Some k \<Rightarrow> k) + 1)\<rparr>
                       else interview1)
                in saveOfflineInterview jsize interview2 s1)))"

definition deleteSyncedInterview ::
  "(interview \<Rightarrow> nat) \<Rightarrow> string \<Rightarrow> store \<Rightarrow> (string + unit) \<times> store" where
  "deleteSyncedInterview jsize interviewId s =
     (case getOfflineInterviews jsize s of
        (interviews, s1) \<Rightarrow>
          (let filtered = filter (\<lambda>i. id_of i \<noteq> Some interviewId) interviews
           in setItem offline_interviews_update (map Obj filtered) s1))"

section \<open>Reference data cache (OfflineDataCacheService)\<close>

subsection \<open>All constituencies of a state\<close>

definition getAllACsForAllStates :: "store \<Rightarrow> (string \<rightharpoonup> acs_entry) \<times> store" where
  "getAllACsForAllStates s =
     (case getItem all_acs_for_state s of
        (Inr (Some parsed), s1) \<Rightarrow> (parsed, s1)
      | (Inr None, s1) \<Rightarrow> (Map.empty, s1)
      | (Inl m, s1) \<Rightarrow> (Map.empty, s1))"

definition saveAllACsForState ::
  "string \<Rightarrow> string \<Rightarrow> ac_item list \<Rightarrow> store \<Rightarrow> (string + unit) \<times> store" where
  "saveAllACsForState now state acs' s =
     (case getAllACsForAllStates s of
        (allACsData, s1) \<Rightarrow>
          (case setItem all_acs_for_state_update
                  (allACsData(state \<mapsto> \<lparr>acs = Some acs', cachedAt = now\<rparr>)) s1 of
             (Inl m, s2) \<Rightarrow> (Inl m, s2)
           | (Inr u, s2) \<Rightarrow>
               (case getAllACsForAllStates s2 of
                  (verifyData, s3) \<Rightarrow> (Inr (), s3))))"

definition clearACsForState :: "string \<Rightarrow> store \<Rightarrow> (string + unit) \<times> store" where
  "clearACsForState state s =
     (case getAllACsForAllStates s of
        (allACsData, s1) \<Rightarrow>
          (case setItem all_acs_for_state_update (allACsData(state := None)) s1 of
             (Inl m, s2) \<Rightarrow> (Inl m, s2)
           | (Inr u, s2) \<Rightarrow>
               (case getAllACsForAllStates s2 of
                  (verifyData, s3) \<Rightarrow> (Inr (), s3))))"

definition minExpectedACs :: "string \<Rightarrow> nat" where
  "minExpectedACs state = (if state = ''West Bengal'' then 200 else 50)"

definition getAllACsForState :: "string \<Rightarrow> store \<Rightarrow> ac_item list \<times> store" where
  "getAllACsForState state s =
     (case getAllACsForAllStates s of
        (allACsData, s1) \<Rightarrow>
          (case allACsData state of
             None \<Rightarrow> ([], s1)
           | Some stateData \<Rightarrow>
               (case acs stateData of
                  None \<Rightarrow> ([], s1)
                | Some cachedACs \<Rightarrow>
                    if length cachedACs \<ge> minExpectedACs state
                    then (cachedACs, s1)
                    else (case clearACsForState state s1 of
                            (r, s2) \<Rightarrow> ([], s2)))))"

subsection \<open>Polling groups\<close>

definition getAllPollingGroups :: "store \<Rightarrow> (string \<times> polling_group) list \<times> store" where
  "getAllPollingGroups s =
     (case getItem polling_groups s of
        (Inr (Some parsed), s1) \<Rightarrow> (parsed, s1)
      | (Inr None, s1) \<Rightarrow> ([], s1)
      | (Inl m, s1) \<Rightarrow> ([], s1))"

text \<open>\<open>x.toLowerCase().replace(/\s*\([^)]*\)\s*/g, '').trim().replace(/\s+/g, ' ')\<close>.\<close>

definition normalize_name :: "string \<Rightarrow> string" where
  "normalize_name x = collapse_ws (trim (strip_parens (toLowerCase x)))"

text \<open>The three comparisons every tier of the fallback makes.\<close>

definition loosely_equal :: "string \<Rightarrow> string \<Rightarrow> bool" where
  "loosely_equal a b = (a = b \<or> includes_str a b \<or> includes_str b a)"

text \<open>
  The tier of the fallback that accepted the entry; the code tells them apart in what
  it logs only.
\<close>

datatype tier = ByACName | ByACCode | ByCacheKey

text \<open>The loop over \<open>Object.entries(allGroups)\<close>.\<close>

fun scan_groups ::
  "string \<Rightarrow> string \<Rightarrow> (string \<times> polling_group) list \<Rightarrow> (tier \<times> polling_group) option" where
  "scan_groups state normalizedSearchName [] = None"
| "scan_groups state normalizedSearchName ((cachedKey, cachedData) # others) =
     (if startsWith cachedKey (state @ ''::'')
      then
        (let cachedACIdentifier = remove_first cachedKey (state @ ''::'');
             cachedACName = ac_name cachedData;
             normalizedCachedName =
               (case cachedACName of
                  None \<Rightarrow> []
                | Some n \<Rightarrow> if n = [] then [] else normalize_name n)
         in if truthy cachedACName \<and> loosely_equal normalizedCachedName normalizedSearchName
            then Some (ByACName, cachedData)
            else if all_digits cachedACIdentifier \<and> truthy cachedACName
                    \<and> loosely_equal normalizedCachedName normalizedSearchName
            then Some (ByACCode, cachedData)
            else if loosely_equal (normalize_name cachedACIdentifier) normalizedSearchName
            then Some (ByCacheKey, cachedData)
            else scan_groups state normalizedSearchName others)
      else scan_groups state normalizedSearchName others)"

definition getPollingGroups ::
  "string \<Rightarrow> string \<Rightarrow> store \<Rightarrow> polling_group option \<times> store" where
  "getPollingGroups state acIdentifier s =
     (case getAllPollingGroups s of
        (allGroups, s1) \<Rightarrow>
          (case map_of allGroups (state @ ''::'' @ acIdentifier) of
             Some result \<Rightarrow> (Some result, s1)
           | None \<Rightarrow>
               (map_option snd (scan_groups state (normalize_name acIdentifier) allGroups), s1)))"

subsection \<open>The table of spelling variants\<close>

definition acNameMappings :: "(string \<times> string) list" where
  "acNameMappings =
     [(''Cooch Behar Uttar'', ''COOCHBEHAR UTTAR (SC)''),
      (''Cooch Behar Dakshin'', ''COOCHBEHAR DAKSHIN''),
      (''Coochbehar Uttar'', ''COOCHBEHAR UTTAR (SC)''),
      (''Coochbehar Dakshin'', ''COOCHBEHAR DAKSHIN''),
      (''COOCH BEHAR UTTAR'', ''COOCHBEHAR UTTAR (SC)''),
      (''COOCH BEHAR DAKSHIN'', ''COOCHBEHAR DAKSHIN'')]"

definition normalizeACName :: "string \<Rightarrow> string" where
  "normalizeACName acName =
     (if acName = [] then acName
      else case map_of acNameMappings acName of
             Some v \<Rightarrow> v
           | None \<Rightarrow>
               (case find (\<lambda>(key, v). toLowerCase key = toLowerCase (trim acName)) acNameMappings of
                  Some (key, v) \<Rightarrow> v
                | None \<Rightarrow> acName))"

section \<open>Bundled reference dataset loader (BundledDataService)\<close>

text \<open>
  The bundled \<open>polling_stations.json\<close>: per state, the constituencies by number in the
  order of \<open>Object.entries\<close>. The file is not part of the sources; the dataset is a
  parameter. A loader that failed has the empty dataset.
\<close>

record bundled_ac =
  bundled_ac_name :: "string option"
  bundled_rest :: string

type_synonym polling_station_data = "(string \<times> (string \<times> bundled_ac) list) list"

text \<open>The loop of \<open>findACNumberByName\<close> over \<open>Object.entries(data[state])\<close>.\<close>

fun find_ac_loop :: "string \<Rightarrow> (string \<times> bundled_ac) list \<Rightarrow> string option" where
  "find_ac_loop normalizedSearchName [] = None"
| "find_ac_loop normalizedSearchName ((acNo, acData) # others) =
     (if \<not> truthy (bundled_ac_name acData) then find_ac_loop normalizedSearchName others
      else
        (let normalizedStoredName =
               collapse_ws (toLowerCase (trim (case bundled_ac_name acData of
                                                  None \<Rightarrow> []
                                                | Some n \<Rightarrow> n)))
         in if normalizedStoredName = normalizedSearchName then Some acNo
            else if includes_str normalizedStoredName normalizedSearchName
                    \<or> includes_str normalizedSearchName (trim (strip_parens normalizedStoredName))
            then Some acNo
            else if trim (strip_parens normalizedStoredName)
                      = trim (strip_parens normalizedSearchName)
            then Some acNo
            else find_ac_loop normalizedSearchName others))"

definition findACNumberByName :: "polling_station_data \<Rightarrow> string \<Rightarrow> string \<Rightarrow> string option" where
  "findACNumberByName data' state acName =
     (case map_of data' state of
        None \<Rightarrow> None
      | Some acsOfState \<Rightarrow>
          if acName = [] then None
          else
            (let acNameStr = trim acName
             in if acNameStr = [] \<or> acNameStr = ''N/A'' then None
                else find_ac_loop (collapse_ws (toLowerCase acNameStr)) acsOfState))"

text \<open>
  The bundled \<open>assemblyConstituencies.json\<close>: per state, the list of constituencies
  with code and name. It is a parameter as well.
\<close>

record bundled_state =
  assemblyConstituencies :: "(string \<times> string) list option"

type_synonym ac_data = "string \<rightharpoonup> bundled_state"

text \<open>The answer of a lookup: \<open>{ success, data, message }\<close>.\<close>

record 'd api_result =
  success :: bool
  result_data :: "'d option"
  result_message :: "string option"

definition bundled_getAllACsForState :: "ac_data \<Rightarrow> string \<Rightarrow> ac_item list api_result" where
  "bundled_getAllACsForState acData state =
     (case acData state of
        None \<Rightarrow>
          \<lparr>success = False, result_data = None,
           result_message = Some (''State \"'' @ state @ ''\" not found in bundled AC data'')\<rparr>
      | Some stateData \<Rightarrow>
          (case assemblyConstituencies stateData of
             None \<Rightarrow>
               \<lparr>success = False, result_data = None,
                result_message = Some (''State \"'' @ state @ ''\" not found in bundled AC data'')\<rparr>
           | Some acList \<Rightarrow>
               \<lparr>success = True,
                result_data = Some (map (\<lambda>(code, nm). AcObject
                    \<lparr>item_acCode = Some code, item_acName = Some nm, item_name = None,
                     item_displayText = Some (code @ '' - '' @ nm),
                     item_searchText = Some (toLowerCase (code @ '' '' @ nm))\<rparr>) acList),
                result_message = None\<rparr>))"

section \<open>Bulk provisioning (downloadDependentDataForSurveys)\<close>

text \<open>
  The remote data source \<open>apiService\<close> is not part of the sources: its calls are
  parameters. \<open>Inl\<close> is a call that throws.
\<close>

record api =
  getGroupsByAC :: "string \<Rightarrow> string \<Rightarrow> string + polling_group api_result"
  getPollingStationsByGroup :: "string \<Rightarrow> string \<Rightarrow> string \<Rightarrow> string + polling_station api_result"
  getGenderResponseCounts :: "string option \<Rightarrow> string + string api_result"
  getLastCatiSetNumber :: "string option \<Rightarrow> string + string api_result option"
  getCurrentUser :: "bool \<Rightarrow> string + string api_result"

record assignment =
  assignedACs :: "string list option"

text \<open>A survey of the list handed to the orchestrator, with the fields it reads.\<close>

record assigned_survey =
  survey_underscore_id :: "string option"
  survey_id :: "string option"
  assignedInterviewers :: "assignment list option"
  capiInterviewers :: "assignment list option"
  catiInterviewers :: "assignment list option"
  survey_assignedACs :: "string list option"
  acAssignmentState :: "string option"
  survey_mode :: "string option"
  assignedMode :: "string option"

text \<open>\<open>obj[key] = v\<close> on a dictionary kept in insertion order.\<close>

fun assign :: "'k \<Rightarrow> 'v \<Rightarrow> ('k \<times> 'v) list \<Rightarrow> ('k \<times> 'v) list" where
  "assign k v [] = [(k, v)]"
| "assign k v (p # ps) = (if fst p = k then (k, v) # ps else p # assign k v ps)"

text \<open>\<open>Set.prototype.add\<close>, the set kept in insertion order.\<close>

definition set_add :: "'a \<Rightarrow> 'a list \<Rightarrow> 'a list" where
  "set_add x xs = (if x \<in> set xs then xs else xs @ [x])"

definition savePollingGroups ::
  "string \<Rightarrow> string \<Rightarrow> string \<Rightarrow> polling_group \<Rightarrow> store \<Rightarrow> (string + unit) \<times> store" where
  "savePollingGroups now state acIdentifier d s =
     (case getAllPollingGroups s of
        (allGroups, s1) \<Rightarrow>
          setItem polling_groups_update
            (assign (state @ ''::'' @ acIdentifier)
               (d\<lparr>pg_state := Some state, pg_acIdentifier := Some acIdentifier,
                  pg_cachedAt := Some now\<rparr>) allGroups) s1)"

definition getAllPollingStations :: "store \<Rightarrow> (string \<times> polling_station) list \<times> store" where
  "getAllPollingStations s =
     (case getItem polling_stations s of
        (Inr (Some parsed), s1) \<Rightarrow> (parsed, s1)
      | (Inr None, s1) \<Rightarrow> ([], s1)
      | (Inl m, s1) \<Rightarrow> ([], s1))"

definition savePollingStations ::
  "string \<Rightarrow> string \<Rightarrow> string \<Rightarrow> string \<Rightarrow> polling_station \<Rightarrow> store
     \<Rightarrow> (string + unit) \<times> store" where
  "savePollingStations now state acIdentifier groupName d s =
     (case getAllPollingStations s of
        (allStations, s1) \<Rightarrow>
          setItem polling_stations_update
            (assign (state @ ''::'' @ acIdentifier @ ''::'' @ groupName)
               (d\<lparr>ps_state := state, ps_acIdentifier := acIdentifier,
                  ps_groupName := groupName, ps_cachedAt := now\<rparr>) allStations) s1)"

definition getAllGenderQuotas :: "store \<Rightarrow> (string option \<rightharpoonup> survey_cached) \<times> store" where
  "getAllGenderQuotas s =
     (case getItem gender_quotas s of
        (Inr (Some parsed), s1) \<Rightarrow> (parsed, s1)
      | (Inr None, s1) \<Rightarrow> (Map.empty, s1)
      | (Inl m, s1) \<Rightarrow> (Map.empty, s1))"

definition saveGenderQuotas ::
  "string \<Rightarrow> string option \<Rightarrow> string \<Rightarrow> store \<Rightarrow> (string + unit) \<times> store" where
  "saveGenderQuotas now surveyId d s =
     (case getAllGenderQuotas s of
        (allQuotas, s1) \<Rightarrow>
          setItem gender_quotas_update
            (allQuotas(surveyId \<mapsto> \<lparr>sc_data = d, sc_surveyId = surveyId, sc_cachedAt = now\<rparr>)) s1)"

definition getAllCatiSetNumbers :: "store \<Rightarrow> (string option \<rightharpoonup> survey_cached) \<times> store" where
  "getAllCatiSetNumbers s =
     (case getItem cati_set_numbers s of
        (Inr (Some parsed), s1) \<Rightarrow> (parsed, s1)
      | (Inr None, s1) \<Rightarrow> (Map.empty, s1)
      | (Inl m, s1) \<Rightarrow> (Map.empty, s1))"

definition saveCatiSetNumber ::
  "string \<Rightarrow> string option \<Rightarrow> string \<Rightarrow> store \<Rightarrow> (string + unit) \<times> store" where
  "saveCatiSetNumber now surveyId d s =
     (case getAllCatiSetNumbers s of
        (allSetNumbers, s1) \<Rightarrow>
          setItem cati_set_numbers_update
            (allSetNumbers(surveyId \<mapsto> \<lparr>sc_data = d, sc_surveyId = surveyId, sc_cachedAt = now\<rparr>)) s1)"

definition saveUserData :: "string \<Rightarrow> string \<Rightarrow> store \<Rightarrow> (string + unit) \<times> store" where
  "saveUserData now d s = setItem user_data_update \<lparr>uc_user = d, uc_cachedAt = now\<rparr> s"

text \<open>\<open>a || b\<close> on optional strings.\<close>

definition or_else :: "string option \<Rightarrow> string option \<Rightarrow> string option" where
  "or_else a b = (if truthy a then a else b)"

text \<open>The identifier under which a survey is provisioned: \<open>survey._id || survey.id\<close>.\<close>

definition survey_key :: "assigned_survey \<Rightarrow> string option" where
  "survey_key sv = or_else (survey_underscore_id sv) (survey_id sv)"

definition assignment_acs :: "assignment list option \<Rightarrow> string list" where
  "assignment_acs asg =
     (case asg of
        None \<Rightarrow> []
      | Some l \<Rightarrow> concat (map (\<lambda>a. case assignedACs a of None \<Rightarrow> [] | Some xs \<Rightarrow> xs) l))"

text \<open>The array \<open>acs\<close> the first loop collects for one survey.\<close>

definition survey_acs :: "assigned_survey \<Rightarrow> string list" where
  "survey_acs sv =
     assignment_acs (assignedInterviewers sv) @ assignment_acs (capiInterviewers sv)
       @ assignment_acs (catiInterviewers sv)
       @ (case survey_assignedACs sv of None \<Rightarrow> [] | Some xs \<Rightarrow> xs)"

definition collect_assignedACs :: "assigned_survey list \<Rightarrow> string list" where
  "collect_assignedACs surveys =
     fold (\<lambda>sv acc. fold (\<lambda>ac acc'. if ac \<noteq> [] then set_add ac acc' else acc') (survey_acs sv) acc)
       surveys []"

definition collect_states :: "assigned_survey list \<Rightarrow> string list" where
  "collect_states surveys =
     fold (\<lambda>sv acc. case acAssignmentState sv of
                        None \<Rightarrow> acc
                      | Some st \<Rightarrow> if st \<noteq> [] then set_add st acc else acc) surveys []"

definition collect_surveyIds :: "assigned_survey list \<Rightarrow> string option list" where
  "collect_surveyIds surveys = fold (\<lambda>sv acc. set_add (survey_key sv) acc) surveys []"

text \<open>The name under which an element of the cached list is provisioned, if any.\<close>

definition ac_item_name :: "ac_item \<Rightarrow> string option" where
  "ac_item_name acItem =
     (case acItem of
        AcString str \<Rightarrow> Some (trim str)
      | AcObject obj \<Rightarrow>
          map_option trim
            (or_else (item_acName obj) (or_else (item_acCode obj)
               (or_else (item_name obj) (or_else (item_displayText obj) None))))
      | AcOther \<Rightarrow> None)"

definition acNamesToCache :: "ac_item list \<Rightarrow> string list" where
  "acNamesToCache items =
     concat (map (\<lambda>acItem. case ac_item_name acItem of
                                None \<Rightarrow> []
                              | Some n \<Rightarrow> if n \<noteq> [] then [n] else []) items)"

definition group_item_name :: "group_item \<Rightarrow> string option" where
  "group_item_name groupItem =
     (case groupItem of
        GroupString str \<Rightarrow> Some (trim str)
      | GroupObject g \<Rightarrow>
          Some (trim (case or_else (group_name g) (or_else (group_groupName g)
                             (or_else (group_group g) (or_else (group_value g) (Some [])))) of
                        None \<Rightarrow> []
                      | Some v \<Rightarrow> v))
      | GroupOther \<Rightarrow> None)"

text \<open>The body of the loop over the groups of one constituency.\<close>

definition cache_group :: "api \<Rightarrow> string \<Rightarrow> string \<Rightarrow> string \<Rightarrow> group_item \<Rightarrow> store \<Rightarrow> store" where
  "cache_group remote now state normalizedAC groupItem s =
     (case group_item_name groupItem of
        None \<Rightarrow> s
      | Some groupName \<Rightarrow>
          if groupName = [] then s
          else (case getPollingStationsByGroup remote state normalizedAC groupName of
                  Inl e \<Rightarrow> s
                | Inr stationsResult \<Rightarrow>
                    if success stationsResult
                    then (case result_data stationsResult of
                            None \<Rightarrow> s
                          | Some d \<Rightarrow> snd (savePollingStations now state normalizedAC groupName d s))
                    else s))"

text \<open>The body of the loop over the constituencies to provision.\<close>

definition cache_ac :: "api \<Rightarrow> string \<Rightarrow> string \<Rightarrow> string \<Rightarrow> store \<Rightarrow> store" where
  "cache_ac remote now state normalizedAC s =
     (case getGroupsByAC remote state normalizedAC of
        Inl e \<Rightarrow> s
      | Inr result \<Rightarrow>
          if success result
          then (case result_data result of
                  None \<Rightarrow> s
                | Some d \<Rightarrow>
                    (case savePollingGroups now state normalizedAC d s of
                       (Inl e, s1) \<Rightarrow> s1
                     | (Inr u, s1) \<Rightarrow>
                         fold (cache_group remote now state normalizedAC)
                           (take 10 (case groups d of None \<Rightarrow> [] | Some gs \<Rightarrow> gs)) s1))
          else s)"

definition cache_gender_quotas :: "api \<Rightarrow> string \<Rightarrow> string option \<Rightarrow> store \<Rightarrow> store" where
  "cache_gender_quotas remote now surveyId s =
     (case getGenderResponseCounts remote surveyId of
        Inl e \<Rightarrow> s
      | Inr result \<Rightarrow>
          if success result
          then (case result_data result of
                  None \<Rightarrow> s
                | Some d \<Rightarrow> snd (saveGenderQuotas now surveyId d s))
          else s)"

definition cache_cati_set_number :: "api \<Rightarrow> string \<Rightarrow> assigned_survey \<Rightarrow> store \<Rightarrow> store" where
  "cache_cati_set_number remote now sv s =
     (if survey_mode sv = Some ''cati'' \<or> assignedMode sv = Some ''cati''
      then (case getLastCatiSetNumber remote (survey_key sv) of
              Inl e \<Rightarrow> s
            | Inr None \<Rightarrow> s
            | Inr (Some result) \<Rightarrow>
                if success result
                then (case result_data result of
                        None \<Rightarrow> s
                      | Some d \<Rightarrow> snd (saveCatiSetNumber now (survey_key sv) d s))
                else s)
      else s)"

definition cache_user :: "api \<Rightarrow> string \<Rightarrow> store \<Rightarrow> store" where
  "cache_user remote now s =
     (case getCurrentUser remote True of
        Inl e \<Rightarrow> s
      | Inr userResult \<Rightarrow>
          if success userResult
          then (case result_data userResult of
                  None \<Rightarrow> s
                | Some u \<Rightarrow> snd (saveUserData now u s))
          else s)"

text \<open>
  What \<open>downloadDependentDataForSurveys\<close> does inside its \<open>try\<close>, up to one of its
  two \<open>return\<close> statements, on the storage. The code after the second \<open>return\<close> is
  not reachable and not part of the embedding.
\<close>

definition provision :: "api \<Rightarrow> ac_data \<Rightarrow> string \<Rightarrow> assigned_survey list \<Rightarrow> store \<Rightarrow> store" where
  "provision remote acData now surveys s =
     (let acsArray = collect_assignedACs surveys;
          surveyIds = collect_surveyIds surveys;
          state = (case collect_states surveys of [] \<Rightarrow> ''West Bengal'' | st # sts \<Rightarrow> st);
          bundledACsResult = bundled_getAllACsForState acData state;
          s1 = (if success bundledACsResult
                then (case result_data bundledACsResult of
                        None \<Rightarrow> s
                      | Some d \<Rightarrow> snd (saveAllACsForState now state d s))
                else s)
      in if acsArray = []
         then (case getAllACsForState state s1 of
                 (allCachedACs, s2) \<Rightarrow>
                   if allCachedACs \<noteq> []
                   then fold (cache_ac remote now state) (acNamesToCache (take 100 allCachedACs)) s2
                   else s2)
         else cache_user remote now
                (fold (cache_cati_set_number remote now) surveys
                   (fold (cache_gender_quotas remote now) surveyIds s1)))"

text \<open>The service object: its busy flag and the storage it writes.\<close>

record service =
  isDownloading :: bool
  storage :: store

definition downloadDependentDataForSurveys ::
  "api \<Rightarrow> ac_data \<Rightarrow> string \<Rightarrow> assigned_survey list \<Rightarrow> bool \<Rightarrow> service \<Rightarrow> service" where
  "downloadDependentDataForSurveys remote acData now surveys includeGPS svc =
     (if isDownloading svc then svc
      else (let running = svc\<lparr>isDownloading := True\<rparr>;
                finished = running\<lparr>storage := provision remote acData now surveys (storage running)\<rparr>
            in finished\<lparr>isDownloading := False\<rparr>))"

section \<open>Concrete stores and records\<close>

text \<open>A store that holds nothing and none of whose calls fails.\<close>

definition empty_store :: store where
  "empty_store =
     \<lparr>offline_interviews = None, all_acs_for_state = None, polling_groups = None,
      polling_stations = None, gender_quotas = None, cati_set_numbers = None,
      user_data = None, other_keys = Map.empty, clock = 0, fault = (\<lambda>n. None)\<rparr>"

text \<open>An interview with the given id, status and remaining fields.\<close>

definition an_interview :: "string \<Rightarrow> status option \<Rightarrow> string \<Rightarrow> interview" where
  "an_interview k st r =
     \<lparr>id_of = Some k, status = st, survey = None, surveyName = None, syncAttempts = None,
      lastSyncAttempt = None, error = None, rest = r\<rparr>"

text \<open>
  A serialization length for the concrete cases: the remaining fields as they are, and
  two braces.
\<close>

definition rest_size :: "interview \<Rightarrow> nat" where
  "rest_size i = length (rest i) + 2"

text \<open>A stored collection with one well-formed interview, one entry without id and one
  entry that is not an object.\<close>

definition mixed_store :: store where
  "mixed_store =
     empty_store\<lparr>offline_interviews :=
       Some [Obj (an_interview ''offline_1'' (Some pending) ''{}''),
             Obj ((an_interview [] (Some pending) ''{}'')\<lparr>id_of := None\<rparr>),
             NonObject]\<rparr>"

text \<open>A store whose first call fails with the oversized-row message of the platform.\<close>

definition row_too_big_store :: store where
  "row_too_big_store =
     empty_store\<lparr>offline_interviews := Some [Obj (an_interview ''offline_1'' (Some pending) ''{}'')],
                 fault := (\<lambda>n. if n = 0 then Some ''Row too big to fit into CursorWindow'' else None)\<rparr>"

text \<open>One interview of every status, and one without status.\<close>

definition status_store :: store where
  "status_store =
     empty_store\<lparr>offline_interviews :=
       Some [Obj (an_interview ''a'' None ''{}''),
             Obj (an_interview ''b'' (Some pending) ''{}''),
             Obj (an_interview ''c'' (Some syncing) ''{}''),
             Obj (an_interview ''d'' (Some synced) ''{}''),
             Obj (an_interview ''e'' (Some failed) ''{}'')]\<rparr>"

text \<open>An interview whose remaining fields take two million characters.\<close>

definition big_interview :: interview where
  "big_interview = an_interview ''offline_1'' (Some pending) (replicate 2000000 CHR ''x'')"

text \<open>A stored collection with one interview of status \<open>synced\<close>.\<close>

definition synced_store :: store where
  "synced_store =
     empty_store\<lparr>offline_interviews := Some [Obj (an_interview ''offline_1'' (Some synced) ''{}'')]\<rparr>"

text \<open>A cache of constituencies that holds three entries for West Bengal.\<close>

definition partial_acs_store :: store where
  "partial_acs_store =
     empty_store\<lparr>all_acs_for_state :=
       Some [''West Bengal'' \<mapsto>
               \<lparr>acs = Some [AcString ''Mekliganj'', AcString ''Mathabhanga'', AcString ''Cooch Behar Uttar''],
                cachedAt = ''2026-01-01''\<rparr>]\<rparr>"

text \<open>
  A polling-groups cache with the single key \<open>West Bengal::23\<close>, whose entry has the
  display name \<open>Example AC (SC)\<close>.
\<close>

definition example_group :: polling_group where
  "example_group =
     \<lparr>ac_name = Some ''Example AC (SC)'', groups = Some [GroupString ''Group 1''],
      pg_rest = ''{}'', pg_state = Some ''West Bengal'', pg_acIdentifier = Some ''23'',
      pg_cachedAt = Some ''2026-01-01''\<rparr>"

definition example_groups_store :: store where
  "example_groups_store =
     empty_store\<lparr>polling_groups := Some [(''West Bengal::23'', example_group)]\<rparr>"

text \<open>
  A bundled dataset whose only constituency of West Bengal is the canonical entry
  \<open>COOCHBEHAR UTTAR (SC)\<close>, under the number 3.
\<close>

definition canonical_dataset :: polling_station_data where
  "canonical_dataset =
     [(''West Bengal'',
       [(''3'', \<lparr>bundled_ac_name = Some ''COOCHBEHAR UTTAR (SC)'', bundled_rest = ''{}''\<rparr>)])]"

text \<open>
  A remote source that answers the quota and user requests and throws on the others, one
  assigned survey, and the service with its busy flag clear and set.
\<close>

definition example_api :: api where
  "example_api =
     \<lparr>getGroupsByAC = (\<lambda>state ac. Inl ''Network Error''),
      getPollingStationsByGroup = (\<lambda>state ac g. Inl ''Network Error''),
      getGenderResponseCounts =
        (\<lambda>surveyId. Inr \<lparr>success = True, result_data = Some ''{male: 3}'', result_message = None\<rparr>),
      getLastCatiSetNumber = (\<lambda>surveyId. Inr None),
      getCurrentUser =
        (\<lambda>forceRefresh. Inr \<lparr>success = True, result_data = Some ''{interviewer}'',
                              result_message = None\<rparr>)\<rparr>"

definition example_survey :: assigned_survey where
  "example_survey =
     \<lparr>survey_underscore_id = Some ''s1'', survey_id = None,
      assignedInterviewers = Some [\<lparr>assignedACs = Some [''Example AC'']\<rparr>],
      capiInterviewers = None, catiInterviewers = None, survey_assignedACs = None,
      acAssignmentState = Some ''West Bengal'', survey_mode = Some ''capi'', assignedMode = None\<rparr>"

definition idle_service :: service where
  "idle_service = \<lparr>isDownloading = False, storage = empty_store\<rparr>"

definition busy_service :: service where
  "busy_service = \<lparr>isDownloading = True, storage = empty_store\<rparr>"

text \<open>
  A bundled list of two constituencies for West Bengal, and a survey that assigns no
  constituency.
\<close>

definition short_ac_data :: ac_data where
  "short_ac_data =
     [''West Bengal'' \<mapsto>
        \<lparr>assemblyConstituencies = Some [(''1'', ''Mekliganj''), (''2'', ''Mathabhanga'')]\<rparr>]"

definition unassigned_survey :: assigned_survey where
  "unassigned_survey = example_survey\<lparr>assignedInterviewers := None\<rparr>"

text \<open>A cache of constituencies that holds 140 entries for Kerala.\<close>

definition full_acs_store :: store where
  "full_acs_store =
     empty_store\<lparr>all_acs_for_state :=
       Some [''Kerala'' \<mapsto> \<lparr>acs = Some (replicate 140 (AcString ''AC'')),
                            cachedAt = ''2026-01-01''\<rparr>]\<rparr>"

section \<open>Properties of the store primitives\<close>

lemma healthy_fault: "healthy s \<Longrightarrow> fault s n = None"
  by (simp add: healthy_def)

lemma healthy_empty_store: "healthy empty_store"
  by (simp add: healthy_def empty_store_def)

lemma objs_map_Obj: "objs (map Obj xs) = xs"
  by (induction xs) auto

lemma map_Obj_objs_valid:
  "map Obj (objs (filter (valid_entry jsize) es)) = filter (valid_entry jsize) es"
proof (induction es)
  case Nil
  show ?case by simp
next
  case (Cons e es)
  then show ?case by (cases e) (auto simp: valid_entry_def)
qed

lemma filter_full_length: "\<not> length (filter P xs) < length xs \<Longrightarrow> filter P xs = xs"
  by (meson filter_True length_filter_less)

lemma valid_entry_iff:
  "valid_entry jsize e = (\<exists>i. e = Obj i \<and> truthy (id_of i) \<and> jsize i \<le> 2000000)"
  by (cases e) (auto simp: valid_entry_def)

section \<open>Properties of the interview record store\<close>

subsection \<open>Reading the collection\<close>

lemma getOfflineInterviews_healthy:
  assumes "healthy s" "offline_interviews s = Some es"
  shows "fst (getOfflineInterviews jsize s) = objs (filter (valid_entry jsize) es)"
    and "offline_interviews (snd (getOfflineInterviews jsize s)) = Some (filter (valid_entry jsize) es)"
  using assms
  by (auto simp: getOfflineInterviews_def getItem_def setItem_def healthy_def tick_def Let_def
        filter_full_length split: option.splits)

lemma getOfflineInterviews_keeps_healthy:
  "healthy s \<Longrightarrow> healthy (snd (getOfflineInterviews jsize s))"
  by (auto simp: getOfflineInterviews_def getItem_def setItem_def healthy_def tick_def Let_def
        split: option.splits)

lemma getOfflineInterviews_healthy_objs:
  assumes "healthy s" "offline_interviews s = Some (map Obj W)"
  shows "fst (getOfflineInterviews jsize s) = filter (\<lambda>i. valid_entry jsize (Obj i)) W"
proof -
  have "objs (filter (valid_entry jsize) (map Obj W)) = filter (\<lambda>i. valid_entry jsize (Obj i)) W"
    by (induction W) auto
  with getOfflineInterviews_healthy(1)[OF assms] show ?thesis by simp
qed

lemma valid_objs_filter:
  "i \<in> set (objs (filter (valid_entry jsize) es)) \<Longrightarrow> valid_entry jsize (Obj i)"
proof (induction es)
  case Nil
  then show ?case by simp
next
  case (Cons e es)
  then show ?case by (cases e) (auto split: if_splits)
qed

lemma getOfflineInterviews_valid:
  "i \<in> set (fst (getOfflineInterviews jsize s)) \<Longrightarrow> valid_entry jsize (Obj i)"
  by (auto simp: getOfflineInterviews_def getItem_def setItem_def removeItem_def Let_def
        split: option.splits if_splits sum.splits prod.splits dest: valid_objs_filter)

text \<open>
  The read touches no key but that of the interviews, whatever the store does.
\<close>

lemma getOfflineInterviews_frame:
  "(snd (getOfflineInterviews jsize s))\<lparr>offline_interviews := offline_interviews s, clock := clock s\<rparr> = s"
  by (auto simp: getOfflineInterviews_def getItem_def setItem_def removeItem_def tick_def Let_def
        split: option.splits if_splits sum.splits prod.splits)

lemma getOfflineInterviews_read_ok:
  assumes "fault s (clock s) = None" and "offline_interviews s = Some es"
  shows "fst (getOfflineInterviews jsize s) = objs (filter (valid_entry jsize) es)"
    and "fault s (Suc (clock s)) = None \<Longrightarrow>
           offline_interviews (snd (getOfflineInterviews jsize s)) = Some (filter (valid_entry jsize) es)"
  using assms
  by (auto simp: getOfflineInterviews_def getItem_def setItem_def tick_def Let_def
        filter_full_length split: option.splits)

text \<open>
  C4. When the read of the collection succeeds, \<open>getOfflineInterviews\<close> returns exactly
  the stored entries that are objects with a non-empty id and a serialization of at most
  2000000 characters, in their order. When the store also accepts the next call, the
  write of the cleaned collection that the code makes as soon as an entry was dropped, the
  storage key holds exactly these entries afterwards.
\<close>

theorem getOfflineInterviews_filters_and_heals:
  assumes "fault s (clock s) = None" and "offline_interviews s = Some es"
  shows "map Obj (fst (getOfflineInterviews jsize s))
           = filter (\<lambda>e. \<exists>i. e = Obj i \<and> truthy (id_of i) \<and> jsize i \<le> 2000000) es
         \<and> (fault s (Suc (clock s)) = None \<longrightarrow>
              offline_interviews (snd (getOfflineInterviews jsize s))
                = Some (filter (\<lambda>e. \<exists>i. e = Obj i \<and> truthy (id_of i) \<and> jsize i \<le> 2000000) es))"
proof -
  have "valid_entry jsize = (\<lambda>e. \<exists>i. e = Obj i \<and> truthy (id_of i) \<and> jsize i \<le> 2000000)"
    by (rule ext) (rule valid_entry_iff)
  then show ?thesis
    using getOfflineInterviews_read_ok[OF assms, of jsize] map_Obj_objs_valid[of jsize es]
    by simp
qed

theorem getOfflineInterviews_filters_and_heals_witness:
  "fault mixed_store (clock mixed_store) = None
   \<and> fault mixed_store (Suc (clock mixed_store)) = None
   \<and> map Obj (fst (getOfflineInterviews rest_size mixed_store))
       = [Obj (an_interview ''offline_1'' (Some pending) ''{}'')]
   \<and> offline_interviews (snd (getOfflineInterviews rest_size mixed_store))
       = Some [Obj (an_interview ''offline_1'' (Some pending) ''{}'')]"
proof -
  have r: "fault mixed_store (clock mixed_store) = None"
    and w: "fault mixed_store (Suc (clock mixed_store)) = None"
    by (simp_all add: mixed_store_def empty_store_def)
  have c: "offline_interviews mixed_store =
             Some [Obj (an_interview ''offline_1'' (Some pending) ''{}''),
                   Obj ((an_interview [] (Some pending) ''{}'')\<lparr>id_of := None\<rparr>),
                   NonObject]"
    by (simp add: mixed_store_def)
  show ?thesis
    using r w getOfflineInterviews_filters_and_heals[OF r c, of rest_size]
    by (simp add: an_interview_def truthy_def rest_size_def)
qed

subsection \<open>The oversized-row failure of the read\<close>

lemma getOfflineInterviews_row_too_big:
  assumes "fault s (clock s) = Some m" and "includes_str m ''Row too big''"
  shows "fst (getOfflineInterviews jsize s) = []"
    and "fault s (Suc (clock s)) = None \<Longrightarrow>
           offline_interviews (snd (getOfflineInterviews jsize s)) = None"
  using assms
  by (simp_all add: getOfflineInterviews_def getItem_def removeItem_def tick_def
        split: option.splits prod.splits)

lemma getOfflineInterviews_absent:
  assumes "fault s (clock s) = None" and "offline_interviews s = None"
  shows "fst (getOfflineInterviews jsize s) = []"
  using assms by (simp add: getOfflineInterviews_def getItem_def)

text \<open>
  C5, as the code has it. When the read of the collection fails with a message that
  contains \<open>Row too big\<close>, \<open>getOfflineInterviews\<close> returns the empty list, and when
  the store accepts the \<open>removeItem\<close> that follows, the storage key is gone. What the
  caller receives is the value it receives from any store that holds no collection and
  reports no failure: the result does not tell the two apart.
\<close>

theorem getOfflineInterviews_row_too_big_discards:
  assumes "fault s (clock s) = Some m" and "includes_str m ''Row too big''"
  shows "fst (getOfflineInterviews jsize s) = []
         \<and> (fault s (Suc (clock s)) = None \<longrightarrow>
              offline_interviews (snd (getOfflineInterviews jsize s)) = None)
         \<and> (fault t (clock t) = None \<and> offline_interviews t = None \<longrightarrow>
              fst (getOfflineInterviews jsize t) = fst (getOfflineInterviews jsize s))"
proof (intro conjI impI)
  show e: "fst (getOfflineInterviews jsize s) = []"
    by (rule getOfflineInterviews_row_too_big(1)[OF assms])
  show "offline_interviews (snd (getOfflineInterviews jsize s)) = None"
    if "fault s (Suc (clock s)) = None"
    using that by (rule getOfflineInterviews_row_too_big(2)[OF assms])
  show "fst (getOfflineInterviews jsize t) = fst (getOfflineInterviews jsize s)"
    if "fault t (clock t) = None \<and> offline_interviews t = None"
    using that e getOfflineInterviews_absent[of t jsize] by simp
qed

theorem getOfflineInterviews_row_too_big_discards_witness:
  "fault row_too_big_store (clock row_too_big_store) = Some ''Row too big to fit into CursorWindow''
   \<and> offline_interviews row_too_big_store
       = Some [Obj (an_interview ''offline_1'' (Some pending) ''{}'')]
   \<and> fst (getOfflineInterviews rest_size row_too_big_store) = []
   \<and> offline_interviews (snd (getOfflineInterviews rest_size row_too_big_store)) = None
   \<and> fst (getOfflineInterviews rest_size empty_store)
       = fst (getOfflineInterviews rest_size row_too_big_store)"
proof -
  have f: "fault row_too_big_store (clock row_too_big_store)
             = Some ''Row too big to fit into CursorWindow''"
    by (simp add: row_too_big_store_def empty_store_def)
  have i: "includes_str ''Row too big to fit into CursorWindow'' ''Row too big''"
    by simp
  have r: "fault row_too_big_store (Suc (clock row_too_big_store)) = None"
    by (simp add: row_too_big_store_def empty_store_def)
  have e: "fault empty_store (clock empty_store) = None \<and> offline_interviews empty_store = None"
    by (simp add: empty_store_def)
  have c: "offline_interviews row_too_big_store
          = Some [Obj (an_interview ''offline_1'' (Some pending) ''{}'')]"
    by (simp add: row_too_big_store_def)
  from getOfflineInterviews_row_too_big_discards[OF f i, of rest_size empty_store] r e f c
  show ?thesis by blast
qed

text \<open>
  C5 as stated fails: the caller of \<open>getOfflineInterviews\<close> on the store whose read
  reports the oversized row gets the very value it gets on the store that holds nothing.
\<close>

theorem row_too_big_not_distinguishable:
  "fault row_too_big_store (clock row_too_big_store) = Some ''Row too big to fit into CursorWindow''
   \<and> fault empty_store (clock empty_store) = None
   \<and> fst (getOfflineInterviews rest_size row_too_big_store)
       = fst (getOfflineInterviews rest_size empty_store)"
  by (simp add: getOfflineInterviews_def getItem_def removeItem_def tick_def
        row_too_big_store_def empty_store_def)

subsection \<open>Pending interviews\<close>

text \<open>
  C6. \<open>getPendingInterviews\<close> returns the interviews that \<open>getOfflineInterviews\<close>
  returns and whose status is absent, \<open>pending\<close> or \<open>failed\<close>, in their order; none
  of them is \<open>synced\<close> or \<open>syncing\<close>; and it leaves the store as
  \<open>getOfflineInterviews\<close> leaves it.
\<close>

theorem getPendingInterviews_subset:
  "fst (getPendingInterviews jsize s)
     = filter (\<lambda>i. status i \<in> {None, Some pending, Some failed})
         (fst (getOfflineInterviews jsize s))
   \<and> (\<forall>i \<in> set (fst (getPendingInterviews jsize s)).
         status i \<noteq> Some synced \<and> status i \<noteq> Some syncing)
   \<and> snd (getPendingInterviews jsize s) = snd (getOfflineInterviews jsize s)"
proof -
  obtain V s1 where g: "getOfflineInterviews jsize s = (V, s1)"
    by (cases "getOfflineInterviews jsize s")
  have "(\<lambda>i. status i = None \<or> status i = Some pending \<or> status i = Some failed)
          = (\<lambda>i. status i \<in> {None, Some pending, Some failed})"
    by auto
  then show ?thesis
    by (auto simp: getPendingInterviews_def g)
qed

theorem getPendingInterviews_subset_witness:
  "map Obj (fst (getOfflineInterviews rest_size status_store))
     = [Obj (an_interview ''a'' None ''{}''), Obj (an_interview ''b'' (Some pending) ''{}''),
        Obj (an_interview ''c'' (Some syncing) ''{}''), Obj (an_interview ''d'' (Some synced) ''{}''),
        Obj (an_interview ''e'' (Some failed) ''{}'')]
   \<and> map Obj (fst (getPendingInterviews rest_size status_store))
     = [Obj (an_interview ''a'' None ''{}''), Obj (an_interview ''b'' (Some pending) ''{}''),
        Obj (an_interview ''e'' (Some failed) ''{}'')]"
proof -
  have h: "healthy status_store"
    by (simp add: healthy_def status_store_def empty_store_def)
  have c: "offline_interviews status_store =
     Some [Obj (an_interview ''a'' None ''{}''), Obj (an_interview ''b'' (Some pending) ''{}''),
        Obj (an_interview ''c'' (Some syncing) ''{}''), Obj (an_interview ''d'' (Some synced) ''{}''),
        Obj (an_interview ''e'' (Some failed) ''{}'')]"
    by (simp add: status_store_def)
  have all: "map Obj (fst (getOfflineInterviews rest_size status_store))
     = [Obj (an_interview ''a'' None ''{}''), Obj (an_interview ''b'' (Some pending) ''{}''),
        Obj (an_interview ''c'' (Some syncing) ''{}''), Obj (an_interview ''d'' (Some synced) ''{}''),
        Obj (an_interview ''e'' (Some failed) ''{}'')]"
    using getOfflineInterviews_healthy(1)[OF h c, of rest_size]
    by (simp add: valid_entry_def truthy_def an_interview_def rest_size_def)
  then have "fst (getOfflineInterviews rest_size status_store)
     = [an_interview ''a'' None ''{}'', an_interview ''b'' (Some pending) ''{}'',
        an_interview ''c'' (Some syncing) ''{}'', an_interview ''d'' (Some synced) ''{}'',
        an_interview ''e'' (Some failed) ''{}'']"
    by (metis objs_map_Obj objs.simps(1,3))
  with all show ?thesis
    using getPendingInterviews_subset[of rest_size status_store]
    by (simp add: an_interview_def)
qed

subsection \<open>Deleting an interview\<close>

lemma deleteSyncedInterview_frame:
  "(snd (deleteSyncedInterview jsize k s))\<lparr>offline_interviews := offline_interviews s, clock := clock s\<rparr> = s"
proof -
  obtain V s1 where g: "getOfflineInterviews jsize s = (V, s1)"
    by (cases "getOfflineInterviews jsize s")
  have "s1\<lparr>offline_interviews := offline_interviews s, clock := clock s\<rparr> = s"
    using getOfflineInterviews_frame[where jsize = jsize and s = s] by (simp add: g)
  then show ?thesis
    by (auto simp: deleteSyncedInterview_def g setItem_def tick_def Let_def split: option.splits)
qed

lemma deleteSyncedInterview_healthy:
  assumes "healthy s" and "offline_interviews s = Some es"
  shows "fst (deleteSyncedInterview jsize k s) = Inr ()"
    and "offline_interviews (snd (deleteSyncedInterview jsize k s))
          = Some (map Obj (filter (\<lambda>i. id_of i \<noteq> Some k) (objs (filter (valid_entry jsize) es))))"
proof -
  obtain V s1 where g: "getOfflineInterviews jsize s = (V, s1)"
    by (cases "getOfflineInterviews jsize s")
  have V: "V = objs (filter (valid_entry jsize) es)"
    using getOfflineInterviews_healthy(1)[OF assms, of jsize] by (simp add: g)
  have "healthy s1"
    using getOfflineInterviews_keeps_healthy[OF assms(1), of jsize] by (simp add: g)
  then have f: "fault s1 (clock s1) = None"
    by (rule healthy_fault)
  show "fst (deleteSyncedInterview jsize k s) = Inr ()"
    by (simp add: deleteSyncedInterview_def g setItem_def f Let_def)
  show "offline_interviews (snd (deleteSyncedInterview jsize k s))
          = Some (map Obj (filter (\<lambda>i. id_of i \<noteq> Some k) (objs (filter (valid_entry jsize) es))))"
    by (simp add: deleteSyncedInterview_def g setItem_def f Let_def tick_def V)
qed

text \<open>
  When the read fails with any other message the read returns the empty list and keeps
  the key; the write of \<open>deleteSyncedInterview\<close> that follows then replaces the stored
  collection by the empty one.
\<close>

lemma deleteSyncedInterview_after_failed_read:
  assumes "fault s (clock s) = Some m" and "\<not> includes_str m ''Row too big''"
    and "fault s (Suc (clock s)) = None"
  shows "offline_interviews (snd (deleteSyncedInterview jsize k s)) = Some []"
  using assms
  by (simp add: deleteSyncedInterview_def getOfflineInterviews_def getItem_def setItem_def
        tick_def)

lemma filter_objs_all_valid:
  assumes "\<forall>e \<in> set es. \<exists>i. e = Obj i \<and> P i"
  shows "map Obj (filter P (objs es)) = es"
  using assms
proof (induction es)
  case Nil
  show ?case by simp
next
  case (Cons e es)
  then show ?case by (cases e) auto
qed

text \<open>
  C10, as the code has it. On a store whose calls succeed, \<open>deleteSyncedInterview\<close>
  leaves under the key the entries that \<open>getOfflineInterviews\<close> accepts and whose id
  differs from the given one, in their order and unchanged: the records with the given id
  go, and so does every entry the read rejects. When every stored entry is accepted and
  none has the given id the collection is unchanged. No other key of the store is
  modified (the last conjunct needs no assumption on the store).
\<close>

theorem deleteSyncedInterview_effect:
  assumes "healthy s" and "offline_interviews s = Some es"
  shows "fst (deleteSyncedInterview jsize k s) = Inr ()
    \<and> offline_interviews (snd (deleteSyncedInterview jsize k s))
        = Some (map Obj (filter (\<lambda>i. id_of i \<noteq> Some k) (objs (filter (valid_entry jsize) es))))
    \<and> ((\<forall>e \<in> set es. \<exists>i. e = Obj i \<and> valid_entry jsize (Obj i) \<and> id_of i \<noteq> Some k)
         \<longrightarrow> offline_interviews (snd (deleteSyncedInterview jsize k s)) = Some es)
    \<and> (snd (deleteSyncedInterview jsize k s))
          \<lparr>offline_interviews := offline_interviews s, clock := clock s\<rparr> = s"
proof -
  have unchanged: "offline_interviews (snd (deleteSyncedInterview jsize k s)) = Some es"
    if a: "\<forall>e \<in> set es. \<exists>i. e = Obj i \<and> valid_entry jsize (Obj i) \<and> id_of i \<noteq> Some k"
  proof -
    from a have "\<forall>e \<in> set es. valid_entry jsize e" by auto
    then have v: "filter (valid_entry jsize) es = es" by simp
    from a have "\<forall>e \<in> set es. \<exists>i. e = Obj i \<and> id_of i \<noteq> Some k" by auto
    then have "map Obj (filter (\<lambda>i. id_of i \<noteq> Some k) (objs es)) = es"
      by (rule filter_objs_all_valid)
    with v deleteSyncedInterview_healthy(2)[OF assms, of jsize k] show ?thesis by simp
  qed
  show ?thesis
    using deleteSyncedInterview_healthy[OF assms, of jsize k] unchanged
      deleteSyncedInterview_frame[where jsize = jsize and k = k and s = s]
    by blast
qed

theorem deleteSyncedInterview_effect_witness:
  "healthy status_store
   \<and> fst (deleteSyncedInterview rest_size ''d'' status_store) = Inr ()
   \<and> offline_interviews (snd (deleteSyncedInterview rest_size ''d'' status_store))
       = Some [Obj (an_interview ''a'' None ''{}''), Obj (an_interview ''b'' (Some pending) ''{}''),
               Obj (an_interview ''c'' (Some syncing) ''{}''),
               Obj (an_interview ''e'' (Some failed) ''{}'')]
   \<and> all_acs_for_state (snd (deleteSyncedInterview rest_size ''d'' status_store))
       = all_acs_for_state status_store
   \<and> offline_interviews (snd (deleteSyncedInterview rest_size ''f'' status_store))
       = offline_interviews status_store"
proof -
  let ?es = "[Obj (an_interview ''a'' None ''{}''), Obj (an_interview ''b'' (Some pending) ''{}''),
        Obj (an_interview ''c'' (Some syncing) ''{}''), Obj (an_interview ''d'' (Some synced) ''{}''),
        Obj (an_interview ''e'' (Some failed) ''{}'')]"
  have h: "healthy status_store"
    by (simp add: healthy_def status_store_def empty_store_def)
  have c: "offline_interviews status_store = Some ?es"
    by (simp add: status_store_def)
  note t = deleteSyncedInterview_effect[OF h c, of rest_size "''d''"]
  have "all_acs_for_state ((snd (deleteSyncedInterview rest_size ''d'' status_store))
          \<lparr>offline_interviews := offline_interviews status_store, clock := clock status_store\<rparr>)
        = all_acs_for_state status_store"
    using t by simp
  then have frame: "all_acs_for_state (snd (deleteSyncedInterview rest_size ''d'' status_store))
               = all_acs_for_state status_store"
    by simp
  have absent: "\<forall>e \<in> set ?es. \<exists>i. e = Obj i \<and> valid_entry rest_size (Obj i) \<and> id_of i \<noteq> Some ''f''"
    by (simp add: valid_entry_def truthy_def an_interview_def rest_size_def)
  have same: "offline_interviews (snd (deleteSyncedInterview rest_size ''f'' status_store))
                = offline_interviews status_store"
    using deleteSyncedInterview_effect[OF h c, of rest_size "''f''"] absent c by simp
  from frame same show ?thesis
    using h t by (simp add: valid_entry_def truthy_def an_interview_def rest_size_def)
qed

text \<open>
  C10 as stated fails: deleting an id that is not stored changes the stored collection
  when it holds an entry the read rejects.
\<close>

theorem deleteSyncedInterview_changes_other_entries:
  "offline_interviews mixed_store
     = Some [Obj (an_interview ''offline_1'' (Some pending) ''{}''),
             Obj ((an_interview [] (Some pending) ''{}'')\<lparr>id_of := None\<rparr>),
             NonObject]
   \<and> offline_interviews (snd (deleteSyncedInterview rest_size ''offline_2'' mixed_store))
     = Some [Obj (an_interview ''offline_1'' (Some pending) ''{}'')]
   \<and> offline_interviews (snd (deleteSyncedInterview rest_size ''offline_2'' mixed_store))
     \<noteq> offline_interviews mixed_store"
  by (simp add: deleteSyncedInterview_def getOfflineInterviews_def getItem_def setItem_def
        tick_def mixed_store_def empty_store_def valid_entry_def truthy_def an_interview_def
        rest_size_def Let_def)

subsection \<open>Saving an interview and reading it back\<close>

lemma saveOfflineInterview_healthy:
  assumes "healthy s"
  shows "fst (saveOfflineInterview jsize x s) = Inr ()"
    and "healthy (snd (saveOfflineInterview jsize x s))"
  using assms
  by (auto simp: saveOfflineInterview_def getOfflineInterviews_def getItem_def setItem_def
        healthy_def tick_def Let_def split: option.splits prod.splits sum.splits)

lemma saveOfflineInterview_stored:
  assumes "healthy s"
  shows "offline_interviews (snd (saveOfflineInterview jsize x s)) =
     Some (map Obj
       (case findIndex (\<lambda>i. id_of i = id_of x) (fst (getOfflineInterviews jsize s)) of
          Some n \<Rightarrow> (fst (getOfflineInterviews jsize s))[n := interviewToSave x]
        | None \<Rightarrow> fst (getOfflineInterviews jsize s) @
            [if status x = None then (interviewToSave x)\<lparr>status := Some pending\<rparr>
             else interviewToSave x]))"
proof -
  obtain V s1 where g: "getOfflineInterviews jsize s = (V, s1)"
    by (cases "getOfflineInterviews jsize s")
  have "healthy s1"
    using getOfflineInterviews_keeps_healthy[OF assms, where jsize = jsize] by (simp add: g)
  then have f: "fault s1 (clock s1) = None"
    by (rule healthy_fault)
  have c: "(interviewToSave x)\<lparr>survey := None\<rparr> = interviewToSave x"
    "status (interviewToSave x) = status x"
    by (simp_all add: interviewToSave_def)
  show ?thesis
    by (auto simp: saveOfflineInterview_def g setItem_def f tick_def c Let_def split: option.splits)
qed

lemma find_filter_update:
  "findIndex P xs = Some n \<Longrightarrow> P r \<Longrightarrow> Q r \<Longrightarrow> find P (filter Q (xs[n := r])) = Some r"
proof (induction xs arbitrary: n)
  case Nil
  then show ?case by simp
next
  case (Cons y ys)
  then show ?case by (cases "P y") auto
qed

lemma find_filter_append_new:
  "findIndex P xs = None \<Longrightarrow> P r \<Longrightarrow> Q r \<Longrightarrow> find P (filter Q (xs @ [r])) = Some r"
  by (induction xs) (auto split: if_splits)

lemma findIndex_None_find: "(findIndex P xs = None) = (find P xs = None)"
  by (induction xs) auto

lemma fst_getOfflineInterviewById:
  "fst (getOfflineInterviewById jsize k s) =
     find (\<lambda>i. id_of i = Some k) (fst (getOfflineInterviews jsize s))"
  by (simp add: getOfflineInterviewById_def split: prod.splits)

text \<open>
  Reading the record that \<open>saveOfflineInterview\<close> wrote for \<open>x\<close> back by its id,
  when the record passes the filter of the read.
\<close>

lemma save_then_read_back:
  assumes "healthy s" and "id_of x = Some k" and "k \<noteq> []"
    and "r = (if status x = None \<and>
                 find (\<lambda>i. id_of i = Some k) (fst (getOfflineInterviews jsize s)) = None
              then (interviewToSave x)\<lparr>status := Some pending\<rparr> else interviewToSave x)"
    and "jsize r \<le> 2000000"
  shows "fst (getOfflineInterviewById jsize k (snd (saveOfflineInterview jsize x s))) = Some r"
proof -
  let ?V = "fst (getOfflineInterviews jsize s)"
  let ?s' = "snd (saveOfflineInterview jsize x s)"
  let ?P = "\<lambda>i. id_of i = Some k"
  let ?Q = "\<lambda>i. valid_entry jsize (Obj i)"
  let ?new = "if status x = None then (interviewToSave x)\<lparr>status := Some pending\<rparr>
              else interviewToSave x"
  let ?W = "case findIndex ?P ?V of Some n \<Rightarrow> ?V[n := interviewToSave x] | None \<Rightarrow> ?V @ [?new]"
  have h': "healthy ?s'"
    by (rule saveOfflineInterview_healthy(2)[OF assms(1)])
  have st: "offline_interviews ?s' = Some (map Obj ?W)"
    using saveOfflineInterview_stored[OF assms(1), of jsize x] assms(2) by simp
  have rd: "fst (getOfflineInterviews jsize ?s') = filter ?Q ?W"
    by (rule getOfflineInterviews_healthy_objs[OF h' st])
  have get: "fst (getOfflineInterviewById jsize k ?s') = find ?P (filter ?Q ?W)"
    by (simp only: fst_getOfflineInterviewById rd)
  have idr: "?P r"
    using assms(2,4) by (simp add: interviewToSave_def)
  have q: "?Q r"
    using assms(3,5) idr by (simp add: valid_entry_def truthy_def)
  have "find ?P (filter ?Q ?W) = Some r"
  proof (cases "findIndex ?P ?V")
    case None
    then have "r = ?new"
      using assms(4) by (simp add: findIndex_None_find)
    with find_filter_append_new[of ?P ?V r ?Q] None idr q show ?thesis by simp
  next
    case (Some n)
    then have "find ?P ?V \<noteq> None"
      using findIndex_None_find[of ?P ?V] by simp
    then have "r = interviewToSave x"
      using assms(4) by auto
    with find_filter_update[of ?P ?V n r ?Q] Some idr q show ?thesis by simp
  qed
  with get show ?thesis by simp
qed

text \<open>
  C3, as the code has it. On a store whose calls succeed, for an interview \<open>x\<close> with a
  non-empty id \<open>k\<close>, \<open>saveOfflineInterview\<close> succeeds and leaves under the key the
  records the read accepted, with the first record of id \<open>k\<close> replaced by
  \<open>interviewToSave x\<close>, or, when there is none, with \<open>interviewToSave x\<close> appended, its
  status set to \<open>pending\<close> when \<open>x\<close> has none. The record \<open>r\<close> so written has the
  id of \<open>x\<close>, no survey body and the status of \<open>x\<close> (or that default), and
  \<open>getOfflineInterviewById\<close> right after returns \<open>r\<close>, provided \<open>r\<close> serializes to
  at most 2000000 characters.
\<close>

theorem save_then_get_by_id:
  assumes "healthy s" and "id_of x = Some k" and "k \<noteq> []"
    and "r = (if status x = None \<and>
                 find (\<lambda>i. id_of i = Some k) (fst (getOfflineInterviews jsize s)) = None
              then (interviewToSave x)\<lparr>status := Some pending\<rparr> else interviewToSave x)"
  shows "fst (saveOfflineInterview jsize x s) = Inr ()
    \<and> offline_interviews (snd (saveOfflineInterview jsize x s)) =
        Some (map Obj
          (case findIndex (\<lambda>i. id_of i = Some k) (fst (getOfflineInterviews jsize s)) of
             Some n \<Rightarrow> (fst (getOfflineInterviews jsize s))[n := r]
           | None \<Rightarrow> fst (getOfflineInterviews jsize s) @ [r]))
    \<and> id_of r = Some k \<and> survey r = None \<and> rest r = rest x
    \<and> status r =
          (if status x = None \<and>
              find (\<lambda>i. id_of i = Some k) (fst (getOfflineInterviews jsize s)) = None
           then Some pending else status x)
    \<and> (jsize r \<le> 2000000 \<longrightarrow>
          fst (getOfflineInterviewById jsize k (snd (saveOfflineInterview jsize x s))) = Some r)"
proof -
  let ?V = "fst (getOfflineInterviews jsize s)"
  let ?P = "\<lambda>i. id_of i = Some k"
  have ok: "fst (saveOfflineInterview jsize x s) = Inr ()"
    by (rule saveOfflineInterview_healthy(1)[OF assms(1)])
  have stored: "offline_interviews (snd (saveOfflineInterview jsize x s)) =
        Some (map Obj (case findIndex ?P ?V of Some n \<Rightarrow> ?V[n := r] | None \<Rightarrow> ?V @ [r]))"
  proof (cases "findIndex ?P ?V")
    case None
    then have "r = (if status x = None then (interviewToSave x)\<lparr>status := Some pending\<rparr>
                    else interviewToSave x)"
      using assms(4) by (simp add: findIndex_None_find)
    with None saveOfflineInterview_stored[OF assms(1), of jsize x] assms(2) show ?thesis
      by simp
  next
    case (Some n)
    then have "find ?P ?V \<noteq> None"
      using findIndex_None_find[of ?P ?V] by simp
    then have "r = interviewToSave x"
      using assms(4) by auto
    with Some saveOfflineInterview_stored[OF assms(1), of jsize x] assms(2) show ?thesis
      by simp
  qed
  have facts: "id_of r = Some k" "survey r = None" "rest r = rest x"
    "status r = (if status x = None \<and> find ?P ?V = None then Some pending else status x)"
    using assms(2,4) by (simp_all add: interviewToSave_def)
  have rb: "jsize r \<le> 2000000 \<longrightarrow>
          fst (getOfflineInterviewById jsize k (snd (saveOfflineInterview jsize x s))) = Some r"
    using save_then_read_back[OF assms] by blast
  from ok stored facts rb show ?thesis
    by (intro conjI)
qed

theorem save_then_get_by_id_witness:
  "healthy empty_store
   \<and> fst (saveOfflineInterview rest_size (an_interview ''offline_1'' None ''{}'') empty_store)
       = Inr ()
   \<and> offline_interviews
       (snd (saveOfflineInterview rest_size (an_interview ''offline_1'' None ''{}'') empty_store))
       = Some [Obj (an_interview ''offline_1'' (Some pending) ''{}'')]
   \<and> fst (getOfflineInterviewById rest_size ''offline_1''
            (snd (saveOfflineInterview rest_size (an_interview ''offline_1'' None ''{}'')
                    empty_store)))
       = Some (an_interview ''offline_1'' (Some pending) ''{}'')"
proof -
  let ?x = "an_interview ''offline_1'' None ''{}''"
  let ?r = "an_interview ''offline_1'' (Some pending) ''{}''"
  have i: "id_of ?x = Some ''offline_1''" and n: "''offline_1'' \<noteq> []"
    by (simp_all add: an_interview_def)
  have V: "fst (getOfflineInterviews rest_size empty_store) = []"
    by (simp add: getOfflineInterviews_def getItem_def empty_store_def)
  have r: "?r = (if status ?x = None \<and>
                 find (\<lambda>i. id_of i = Some ''offline_1'')
                   (fst (getOfflineInterviews rest_size empty_store)) = None
              then (interviewToSave ?x)\<lparr>status := Some pending\<rparr> else interviewToSave ?x)"
    by (simp add: V an_interview_def interviewToSave_def truthy_def)
  have sz: "rest_size ?r \<le> 2000000"
    by (simp add: rest_size_def an_interview_def)
  from save_then_get_by_id[OF healthy_empty_store i n r] sz V healthy_empty_store
  show ?thesis by simp
qed

text \<open>
  C3 as stated fails: an interview whose serialization is longer than 2000000 characters
  is saved, and reading it back by its id returns nothing.
\<close>

theorem oversized_interview_not_read_back:
  "id_of big_interview = Some ''offline_1''
   \<and> rest_size big_interview = 2000002
   \<and> fst (saveOfflineInterview rest_size big_interview empty_store) = Inr ()
   \<and> fst (getOfflineInterviewById rest_size ''offline_1''
            (snd (saveOfflineInterview rest_size big_interview empty_store))) = None"
  by (simp add: saveOfflineInterview_def getOfflineInterviewById_def getOfflineInterviews_def
        getItem_def setItem_def empty_store_def tick_def an_interview_def rest_size_def
        big_interview_def interviewToSave_def valid_entry_def truthy_def Let_def)

subsection \<open>Changing the status of an interview\<close>

lemma getOfflineInterviews_twice:
  assumes "healthy s"
  shows "fst (getOfflineInterviews jsize (snd (getOfflineInterviews jsize s)))
           = fst (getOfflineInterviews jsize s)"
proof (cases "offline_interviews s")
  case None
  with assms show ?thesis
    by (simp add: getOfflineInterviews_def getItem_def healthy_def tick_def)
next
  case (Some es)
  let ?s1 = "snd (getOfflineInterviews jsize s)"
  have h1: "healthy ?s1"
    by (rule getOfflineInterviews_keeps_healthy[OF assms])
  have "offline_interviews ?s1 = Some (filter (valid_entry jsize) es)"
    by (rule getOfflineInterviews_healthy(2)[OF assms Some])
  from getOfflineInterviews_healthy(1)[OF h1 this, of jsize]
    getOfflineInterviews_healthy(1)[OF assms Some, of jsize]
  show ?thesis by simp
qed

lemma find_Some_findIndex:
  "find P xs = Some y \<Longrightarrow> \<exists>n. findIndex P xs = Some n \<and> n < length xs \<and> xs ! n = y"
proof (induction xs)
  case Nil
  then show ?case by simp
next
  case (Cons x xs)
  then show ?case by (cases "P x") auto
qed

text \<open>
  C2, as the code has it. \<open>updateInterviewStatus\<close> checks no transition. On a store
  whose calls succeed, when the read finds a record \<open>i\<close> with the given id, whatever the
  status of \<open>i\<close>, \<open>synced\<close> included, the call succeeds and leaves under the key the
  records the read accepted with \<open>i\<close>, at its position, replaced by the record \<open>r\<close>:
  \<open>i\<close> with the requested status and the time of the call (and, when an error text is
  given, that text and one more attempt), without survey body. Reading \<open>r\<close> back by its
  id returns it, provided it serializes to at most 2000000 characters.
\<close>

theorem updateInterviewStatus_unguarded:
  assumes "healthy s"
    and "find (\<lambda>i. id_of i = Some k) (fst (getOfflineInterviews jsize s)) = Some i"
    and "r = interviewToSave
               (if truthy err
                then i\<lparr>status := Some st, lastSyncAttempt := Some now, error := err,
                       syncAttempts := Some ((case syncAttempts i of None \<Rightarrow> 0 | Some a \<Rightarrow> a) + 1)\<rparr>
                else i\<lparr>status := Some st, lastSyncAttempt := Some now\<rparr>)"
  shows "fst (updateInterviewStatus jsize now k st err s) = Inr ()
    \<and> (\<exists>n. findIndex (\<lambda>i. id_of i = Some k) (fst (getOfflineInterviews jsize s)) = Some n
           \<and> n < length (fst (getOfflineInterviews jsize s))
           \<and> fst (getOfflineInterviews jsize s) ! n = i
           \<and> offline_interviews (snd (updateInterviewStatus jsize now k st err s))
               = Some (map Obj ((fst (getOfflineInterviews jsize s))[n := r])))
    \<and> id_of r = Some k \<and> status r = Some st \<and> lastSyncAttempt r = Some now
    \<and> rest r = rest i
    \<and> (jsize r \<le> 2000000 \<longrightarrow>
          fst (getOfflineInterviewById jsize k
                 (snd (updateInterviewStatus jsize now k st err s))) = Some r)"
proof -
  let ?P = "\<lambda>i. id_of i = Some k"
  obtain V s1 where g: "getOfflineInterviews jsize s = (V, s1)"
    by (cases "getOfflineInterviews jsize s")
  have h1: "healthy s1"
    using getOfflineInterviews_keeps_healthy[OF assms(1), where jsize = jsize] by (simp add: g)
  have V1: "fst (getOfflineInterviews jsize s1) = V"
    using getOfflineInterviews_twice[OF assms(1), of jsize] by (simp add: g)
  from assms(2) have fi: "find ?P V = Some i"
    by (simp add: g)
  then have ik: "id_of i = Some k" and iV: "i \<in> set V"
    by (auto simp: find_Some_iff)
  from iV have "valid_entry jsize (Obj i)"
    using getOfflineInterviews_valid[of i jsize s] by (simp add: g)
  with ik have k: "k \<noteq> []"
    by (auto simp: valid_entry_def truthy_def split: if_splits)
  from find_Some_findIndex[OF fi] obtain n where n: "findIndex ?P V = Some n" "n < length V"
    "V ! n = i"
    by blast
  let ?x = "if truthy err
            then i\<lparr>status := Some st, lastSyncAttempt := Some now, error := err,
                   syncAttempts := Some ((case syncAttempts i of None \<Rightarrow> 0 | Some a \<Rightarrow> a) + 1)\<rparr>
            else i\<lparr>status := Some st, lastSyncAttempt := Some now\<rparr>"
  have u: "updateInterviewStatus jsize now k st err s = saveOfflineInterview jsize ?x s1"
    by (simp add: updateInterviewStatus_def g fi Let_def)
  have x: "id_of ?x = Some k" "status ?x = Some st"
    using ik by simp_all
  have r: "r = interviewToSave ?x"
    by (rule assms(3))
  have r': "r = (if status ?x = None \<and> find ?P (fst (getOfflineInterviews jsize s1)) = None
                 then (interviewToSave ?x)\<lparr>status := Some pending\<rparr> else interviewToSave ?x)"
    using r x(2) by simp
  have ok: "fst (saveOfflineInterview jsize ?x s1) = Inr ()"
    by (rule saveOfflineInterview_healthy(1)[OF h1])
  have stored: "offline_interviews (snd (saveOfflineInterview jsize ?x s1))
                  = Some (map Obj (V[n := r]))"
    using saveOfflineInterview_stored[OF h1, of jsize ?x] x(1) n(1) V1 r by simp
  have facts: "id_of r = Some k" "status r = Some st" "lastSyncAttempt r = Some now"
    "rest r = rest i"
    using ik by (simp_all add: r interviewToSave_def)
  have rb: "jsize r \<le> 2000000 \<longrightarrow>
      fst (getOfflineInterviewById jsize k (snd (saveOfflineInterview jsize ?x s1))) = Some r"
    using save_then_read_back[OF h1 x(1) k r'] by blast
  have ex: "\<exists>n. findIndex ?P (fst (getOfflineInterviews jsize s)) = Some n
           \<and> n < length (fst (getOfflineInterviews jsize s))
           \<and> fst (getOfflineInterviews jsize s) ! n = i
           \<and> offline_interviews (snd (updateInterviewStatus jsize now k st err s))
               = Some (map Obj ((fst (getOfflineInterviews jsize s))[n := r]))"
    using n stored by (simp only: u g fst_conv) blast
  from ok rb have ok': "fst (updateInterviewStatus jsize now k st err s) = Inr ()"
    and rb': "jsize r \<le> 2000000 \<longrightarrow>
          fst (getOfflineInterviewById jsize k
                 (snd (updateInterviewStatus jsize now k st err s))) = Some r"
    by (simp_all only: u)
  from ok' ex facts rb' show ?thesis
    by (intro conjI)
qed

theorem updateInterviewStatus_unguarded_witness:
  "healthy synced_store
   \<and> find (\<lambda>i. id_of i = Some ''offline_1'') (fst (getOfflineInterviews rest_size synced_store))
       = Some (an_interview ''offline_1'' (Some synced) ''{}'')
   \<and> fst (updateInterviewStatus rest_size ''2026-01-01'' ''offline_1'' failed (Some ''timeout'')
            synced_store) = Inr ()
   \<and> offline_interviews
        (snd (updateInterviewStatus rest_size ''2026-01-01'' ''offline_1'' failed (Some ''timeout'')
                synced_store))
       = Some [Obj ((an_interview ''offline_1'' (Some failed) ''{}'')
                      \<lparr>syncAttempts := Some 1, lastSyncAttempt := Some ''2026-01-01'',
                        error := Some ''timeout''\<rparr>)]
   \<and> fst (getOfflineInterviewById rest_size ''offline_1''
            (snd (updateInterviewStatus rest_size ''2026-01-01'' ''offline_1'' failed
                    (Some ''timeout'') synced_store)))
       = Some ((an_interview ''offline_1'' (Some failed) ''{}'')
                 \<lparr>syncAttempts := Some 1, lastSyncAttempt := Some ''2026-01-01'',
                   error := Some ''timeout''\<rparr>)"
proof -
  let ?i = "an_interview ''offline_1'' (Some synced) ''{}''"
  let ?r = "(an_interview ''offline_1'' (Some failed) ''{}'')
              \<lparr>syncAttempts := Some 1, lastSyncAttempt := Some ''2026-01-01'',
                error := Some ''timeout''\<rparr>"
  have h: "healthy synced_store"
    by (simp add: healthy_def synced_store_def empty_store_def)
  have V: "fst (getOfflineInterviews rest_size synced_store) = [?i]"
    by (simp add: getOfflineInterviews_def getItem_def synced_store_def empty_store_def
          valid_entry_def truthy_def an_interview_def rest_size_def Let_def)
  have f: "find (\<lambda>i. id_of i = Some ''offline_1'') (fst (getOfflineInterviews rest_size synced_store))
       = Some ?i"
    by (simp add: V an_interview_def)
  have r: "?r = interviewToSave
               (if truthy (Some ''timeout'')
                then ?i\<lparr>status := Some failed, lastSyncAttempt := Some ''2026-01-01'',
                       error := Some ''timeout'',
                       syncAttempts := Some ((case syncAttempts ?i of None \<Rightarrow> 0 | Some a \<Rightarrow> a) + 1)\<rparr>
                else ?i\<lparr>status := Some failed, lastSyncAttempt := Some ''2026-01-01''\<rparr>)"
    by (simp add: truthy_def an_interview_def interviewToSave_def)
  have sz: "rest_size ?r \<le> 2000000"
    by (simp add: rest_size_def an_interview_def)
  note t = updateInterviewStatus_unguarded[OF h f r]
  from t obtain n where n: "n < length (fst (getOfflineInterviews rest_size synced_store))"
    "offline_interviews
        (snd (updateInterviewStatus rest_size ''2026-01-01'' ''offline_1'' failed (Some ''timeout'')
                synced_store))
       = Some (map Obj ((fst (getOfflineInterviews rest_size synced_store))[n := ?r]))"
    by blast
  from n(1) have "n = 0" by (simp add: V)
  with n(2) have stored: "offline_interviews
        (snd (updateInterviewStatus rest_size ''2026-01-01'' ''offline_1'' failed (Some ''timeout'')
                synced_store)) = Some [Obj ?r]"
    by (simp add: V)
  from t sz h f stored show ?thesis
    by simp
qed

text \<open>
  C2 as stated fails: a record whose status is \<open>synced\<close> is put back to \<open>pending\<close>.
\<close>

theorem synced_is_not_terminal:
  "offline_interviews synced_store = Some [Obj (an_interview ''offline_1'' (Some synced) ''{}'')]
   \<and> fst (updateInterviewStatus rest_size ''2026-01-01'' ''offline_1'' pending None synced_store)
       = Inr ()
   \<and> offline_interviews
       (snd (updateInterviewStatus rest_size ''2026-01-01'' ''offline_1'' pending None synced_store))
       = Some [Obj ((an_interview ''offline_1'' (Some pending) ''{}'')
                      \<lparr>lastSyncAttempt := Some ''2026-01-01''\<rparr>)]"
  by (simp add: updateInterviewStatus_def saveOfflineInterview_def getOfflineInterviews_def
        getItem_def setItem_def synced_store_def empty_store_def tick_def an_interview_def
        rest_size_def interviewToSave_def valid_entry_def truthy_def Let_def)

section \<open>Properties of the reference data cache\<close>

subsection \<open>The completeness floor of the constituencies of a state\<close>

lemma getAllACsForState_result:
  "fst (getAllACsForState state s) = []
   \<or> minExpectedACs state \<le> length (fst (getAllACsForState state s))"
  by (auto simp: getAllACsForState_def split: prod.splits option.splits)

lemma getAllACsForAllStates_healthy:
  assumes "healthy s" and "all_acs_for_state s = Some m"
  shows "getAllACsForAllStates s = (m, tick s)"
  using assms by (simp add: getAllACsForAllStates_def getItem_def healthy_def)

lemma clearACsForState_healthy:
  assumes "healthy s" and "all_acs_for_state s = Some m"
  shows "all_acs_for_state (snd (clearACsForState state s)) = Some (m(state := None))"
  using assms
  by (simp add: clearACsForState_def getAllACsForAllStates_def getItem_def setItem_def healthy_def
        tick_def)

text \<open>
  C1. For every state and every store, \<open>getAllACsForState\<close> returns the empty list or a
  list of at least 200 entries for West Bengal and 50 for any other state. On a store
  whose calls succeed, a cached list that reaches the floor is returned as it is, and for
  a cached list below the floor the entry of the state is removed from the cache
  (\<open>clearACsForState\<close>) and the empty list is returned.
\<close>

theorem getAllACsForState_floor:
  "(fst (getAllACsForState state s) = []
      \<or> (if state = ''West Bengal'' then 200 else 50) \<le> length (fst (getAllACsForState state s)))
   \<and> (healthy s \<and> all_acs_for_state s = Some m \<and> m state = Some e \<and> acs e = Some xs
        \<longrightarrow> (if (if state = ''West Bengal'' then 200 else 50) \<le> length xs
             then fst (getAllACsForState state s) = xs
                  \<and> all_acs_for_state (snd (getAllACsForState state s)) = Some m
             else fst (getAllACsForState state s) = []
                  \<and> all_acs_for_state (snd (getAllACsForState state s)) = Some (m(state := None))))"
proof (intro conjI impI)
  show "fst (getAllACsForState state s) = []
      \<or> (if state = ''West Bengal'' then 200 else 50) \<le> length (fst (getAllACsForState state s))"
    using getAllACsForState_result[of state s] by (simp only: minExpectedACs_def)
next
  assume a: "healthy s \<and> all_acs_for_state s = Some m \<and> m state = Some e \<and> acs e = Some xs"
  then have r: "getAllACsForAllStates s = (m, tick s)"
    by (simp add: getAllACsForAllStates_healthy)
  have t: "healthy (tick s)" "all_acs_for_state (tick s) = Some m"
    using a by (simp_all add: healthy_def tick_def)
  show "if (if state = ''West Bengal'' then 200 else 50) \<le> length xs
        then fst (getAllACsForState state s) = xs
             \<and> all_acs_for_state (snd (getAllACsForState state s)) = Some m
        else fst (getAllACsForState state s) = []
             \<and> all_acs_for_state (snd (getAllACsForState state s)) = Some (m(state := None))"
  proof (cases "minExpectedACs state \<le> length xs")
    case True
    with a r t show ?thesis
      by (simp add: getAllACsForState_def minExpectedACs_def)
  next
    case False
    with a r t clearACsForState_healthy[OF t, of state] show ?thesis
      by (auto simp: getAllACsForState_def minExpectedACs_def split: prod.splits)
  qed
qed

theorem getAllACsForState_floor_witness:
  "healthy partial_acs_store
   \<and> (\<exists>m e. all_acs_for_state partial_acs_store = Some m \<and> m ''West Bengal'' = Some e
          \<and> acs e = Some [AcString ''Mekliganj'', AcString ''Mathabhanga'', AcString ''Cooch Behar Uttar''])
   \<and> fst (getAllACsForState ''West Bengal'' partial_acs_store) = []
   \<and> (\<exists>m'. all_acs_for_state (snd (getAllACsForState ''West Bengal'' partial_acs_store)) = Some m'
          \<and> m' ''West Bengal'' = None)
   \<and> healthy full_acs_store
   \<and> fst (getAllACsForState ''Kerala'' full_acs_store) = replicate 140 (AcString ''AC'')"
proof -
  let ?xs = "[AcString ''Mekliganj'', AcString ''Mathabhanga'', AcString ''Cooch Behar Uttar'']"
  let ?e = "\<lparr>acs = Some ?xs, cachedAt = ''2026-01-01''\<rparr>"
  let ?m = "[''West Bengal'' \<mapsto> ?e]"
  have h: "healthy partial_acs_store"
    by (simp add: healthy_def partial_acs_store_def empty_store_def)
  have c: "all_acs_for_state partial_acs_store = Some ?m"
    by (simp add: partial_acs_store_def)
  have l: "?m ''West Bengal'' = Some ?e" "acs ?e = Some ?xs"
    by simp_all
  from getAllACsForState_floor[of "''West Bengal''" partial_acs_store ?m ?e ?xs] h c
  have under: "fst (getAllACsForState ''West Bengal'' partial_acs_store) = []
        \<and> all_acs_for_state (snd (getAllACsForState ''West Bengal'' partial_acs_store))
            = Some (?m(''West Bengal'' := None))"
    by simp
  let ?ys = "replicate 140 (AcString ''AC'')"
  let ?f = "\<lparr>acs = Some ?ys, cachedAt = ''2026-01-01''\<rparr>"
  let ?n = "[''Kerala'' \<mapsto> ?f]"
  have h': "healthy full_acs_store"
    by (simp add: healthy_def full_acs_store_def empty_store_def)
  have c': "all_acs_for_state full_acs_store = Some ?n"
    by (simp add: full_acs_store_def)
  from getAllACsForState_floor[of "''Kerala''" full_acs_store ?n ?f ?ys] h' c'
  have over: "fst (getAllACsForState ''Kerala'' full_acs_store) = ?ys"
    by simp
  from under over h h' c l show ?thesis
    by (metis fun_upd_same)
qed

subsection \<open>The fallback of the polling-groups lookup\<close>

lemma normalize_example_names:
  "normalize_name ''Example AC'' = ''example ac''"
  "normalize_name ''Example AC (SC)'' = ''example ac''"
  "normalize_name ''Howrah'' = ''howrah''"
  "normalize_name ''23'' = ''23''"
  by code_simp+

lemma example_key_parts:
  "startsWith ''West Bengal::23'' (''West Bengal'' @ ''::'')"
  "remove_first ''West Bengal::23'' (''West Bengal'' @ ''::'') = ''23''"
  "all_digits ''23''"
  by code_simp+

lemma example_loose_matches:
  "loosely_equal ''example ac'' ''example ac''"
  "\<not> loosely_equal ''example ac'' ''howrah''"
  "\<not> loosely_equal ''23'' ''howrah''"
  by code_simp+

lemma startsWith_append: "startsWith (p @ r) p"
  by (induction p) auto

lemma startsWith_Cons_append:
  "startsWith (c # cs) (st @ p) =
     (case st of [] \<Rightarrow> startsWith (c # cs) p | d # st' \<Rightarrow> c = d \<and> startsWith cs (st' @ p))"
  by (cases st) auto

lemma startsWith_Nil_append: "startsWith [] (st @ p) = (st = [] \<and> p = [])"
  by (cases st; cases p) auto

text \<open>The only state whose key prefix begins the key \<open>West Bengal::23\<close>.\<close>

lemma example_key_state:
  "startsWith ''West Bengal::23'' (st @ ''::'') = (st = ''West Bengal'')"
  by (auto simp: startsWith_Cons_append startsWith_Nil_append split: list.splits)

text \<open>
  C8. Take a store whose read succeeds and whose polling-groups cache holds the single key
  \<open>West Bengal::23\<close>, with a non-empty display name \<open>n\<close>. A lookup of \<open>a\<close> under
  the state \<open>st\<close> returns the cached entry exactly when \<open>st\<close> is West Bengal and
  \<open>a\<close> is the key \<open>23\<close>, or the normalized \<open>a\<close> equals, contains or is contained in
  the normalized display name (lowercase, parentheses removed, white space collapsed) or
  the key \<open>23\<close>; otherwise it returns null. When the exact key misses, the scan accepts
  the entry in its display-name tier whenever the normalized names match so. For the
  display name \<open>Example AC (SC)\<close> and the lookup of \<open>Example AC\<close> both names normalize
  to \<open>example ac\<close>, the exact key \<open>West Bengal::Example AC\<close> misses, and the entry
  comes from the display-name tier.
\<close>

theorem getPollingGroups_fallback_by_name:
  assumes "fault s (clock s) = None"
    and "polling_groups s = Some [(''West Bengal::23'', g)]"
    and "ac_name g = Some n" and "n \<noteq> []"
  shows "fst (getPollingGroups st a s) =
           (if st = ''West Bengal''
               \<and> (a = ''23'' \<or> loosely_equal (normalize_name n) (normalize_name a)
                    \<or> loosely_equal ''23'' (normalize_name a))
            then Some g else None)
    \<and> scan_groups ''West Bengal'' (normalize_name a) [(''West Bengal::23'', g)] =
           (if loosely_equal (normalize_name n) (normalize_name a) then Some (ByACName, g)
            else if loosely_equal ''23'' (normalize_name a) then Some (ByCacheKey, g)
            else None)
    \<and> map_of [(''West Bengal::23'', g)] (''West Bengal'' @ ''::'' @ ''Example AC'') = None
    \<and> normalize_name ''Example AC'' = ''example ac''
    \<and> normalize_name ''Example AC (SC)'' = ''example ac''
    \<and> loosely_equal ''example ac'' ''example ac''"
proof -
  let ?cache = "[(''West Bengal::23'', g)]"
  have all: "getAllPollingGroups s = (?cache, tick s)"
    using assms(1,2) by (simp add: getAllPollingGroups_def getItem_def)
  have scan: "scan_groups st q ?cache =
           (if st = ''West Bengal''
            then (if loosely_equal (normalize_name n) q then Some (ByACName, g)
                  else if loosely_equal ''23'' q then Some (ByCacheKey, g)
                  else None)
            else None)" for st q
    using assms(3,4) example_key_parts
    by (simp add: example_key_state normalize_example_names truthy_def Let_def)
  have key: "(''West Bengal::23'' = st @ ''::'' @ a) = (st = ''West Bengal'' \<and> a = ''23'')"
  proof
    assume e: "''West Bengal::23'' = st @ ''::'' @ a"
    have "startsWith ((st @ ''::'') @ a) (st @ ''::'')"
      by (rule startsWith_append)
    with e have "startsWith ''West Bengal::23'' (st @ ''::'')"
      by simp
    then have "st = ''West Bengal''"
      by (simp only: example_key_state)
    with e show "st = ''West Bengal'' \<and> a = ''23''"
      by simp
  next
    assume "st = ''West Bengal'' \<and> a = ''23''"
    then show "''West Bengal::23'' = st @ ''::'' @ a"
      by simp
  qed
  then have key': "(st @ CHR '':'' # CHR '':'' # a = ''West Bengal::23'')
                     = (st = ''West Bengal'' \<and> a = ''23'')"
    by auto
  have get: "fst (getPollingGroups st a s) =
           (if st = ''West Bengal''
               \<and> (a = ''23'' \<or> loosely_equal (normalize_name n) (normalize_name a)
                    \<or> loosely_equal ''23'' (normalize_name a))
            then Some g else None)"
    by (auto simp: getPollingGroups_def all key' scan simp del: scan_groups.simps)
  have miss: "map_of ?cache (''West Bengal'' @ ''::'' @ ''Example AC'') = None"
    by simp
  from get scan[of "''West Bengal''" "normalize_name a"] miss show ?thesis
    by (simp add: normalize_example_names example_loose_matches del: scan_groups.simps)
qed

theorem getPollingGroups_fallback_by_name_witness:
  "fault example_groups_store (clock example_groups_store) = None
   \<and> polling_groups example_groups_store = Some [(''West Bengal::23'', example_group)]
   \<and> ac_name example_group = Some ''Example AC (SC)''
   \<and> fst (getPollingGroups ''West Bengal'' ''Example AC'' example_groups_store) = Some example_group
   \<and> scan_groups ''West Bengal'' (normalize_name ''Example AC'')
         [(''West Bengal::23'', example_group)] = Some (ByACName, example_group)
   \<and> fst (getPollingGroups ''West Bengal'' ''Howrah'' example_groups_store) = None
   \<and> fst (getPollingGroups ''Kerala'' ''Example AC'' example_groups_store) = None"
proof -
  have f: "fault example_groups_store (clock example_groups_store) = None"
    by (simp add: example_groups_store_def empty_store_def)
  have c: "polling_groups example_groups_store = Some [(''West Bengal::23'', example_group)]"
    by (simp add: example_groups_store_def)
  have n: "ac_name example_group = Some ''Example AC (SC)''" and e: "''Example AC (SC)'' \<noteq> []"
    by (simp_all add: example_group_def)
  note t = getPollingGroups_fallback_by_name[OF f c n e]
  from t[of "''West Bengal''" "''Example AC''"]
  have hit: "fst (getPollingGroups ''West Bengal'' ''Example AC'' example_groups_store) = Some example_group"
    and tier: "scan_groups ''West Bengal'' (normalize_name ''Example AC'')
         [(''West Bengal::23'', example_group)] = Some (ByACName, example_group)"
    by (simp_all add: normalize_example_names example_loose_matches del: scan_groups.simps)
  from t[of "''West Bengal''" "''Howrah''"]
  have other: "fst (getPollingGroups ''West Bengal'' ''Howrah'' example_groups_store) = None"
    by (simp add: normalize_example_names example_loose_matches)
  from t[of "''Kerala''" "''Example AC''"]
  have state: "fst (getPollingGroups ''Kerala'' ''Example AC'' example_groups_store) = None"
    by simp
  from f c n hit tier other state show ?thesis
    by (intro conjI)
qed

section \<open>Properties of the bundled dataset loader\<close>

text \<open>
  The loop returns the number of an entry that one of its three comparisons accepts.
\<close>

lemma find_ac_loop_Some:
  "find_ac_loop q es = Some k \<Longrightarrow>
     \<exists>d n. (k, d) \<in> set es \<and> bundled_ac_name d = Some n \<and> n \<noteq> []
       \<and> (collapse_ws (toLowerCase (trim n)) = q
            \<or> includes_str (collapse_ws (toLowerCase (trim n))) q
            \<or> includes_str q (trim (strip_parens (collapse_ws (toLowerCase (trim n)))))
            \<or> trim (strip_parens (collapse_ws (toLowerCase (trim n)))) = trim (strip_parens q))"
proof (induction es)
  case Nil
  then show ?case by simp
next
  case (Cons e es)
  obtain acNo acData where e: "e = (acNo, acData)" by (cases e)
  show ?case
  proof (cases "find_ac_loop q es = Some k")
    case True
    with Cons.IH show ?thesis by auto
  next
    case False
    with Cons.prems e show ?thesis
      by (cases "bundled_ac_name acData")
         (auto simp: truthy_def Let_def split: if_splits)
  qed
qed

lemma canonical_name_forms:
  "collapse_ws (toLowerCase (trim ''Cooch Behar Uttar'')) = ''cooch behar uttar''"
  "collapse_ws (toLowerCase (trim ''COOCHBEHAR UTTAR (SC)'')) = ''coochbehar uttar (sc)''"
  "trim (strip_parens ''coochbehar uttar (sc)'') = ''coochbehar uttar''"
  "trim (strip_parens ''cooch behar uttar'') = ''cooch behar uttar''"
  "trim ''Cooch Behar Uttar'' = ''Cooch Behar Uttar''"
  "collapse_ws (toLowerCase ''Cooch Behar Uttar'') = ''cooch behar uttar''"
  by code_simp+

lemma canonical_entry_not_accepted:
  "\<not> includes_str ''coochbehar uttar (sc)'' ''cooch behar uttar''"
  "\<not> includes_str ''cooch behar uttar'' ''coochbehar uttar''"
  by code_simp+

text \<open>
  Whatever the bundled dataset holds, the number that \<open>findACNumberByName\<close> returns for
  \<open>Cooch Behar Uttar\<close> is never that of an entry named \<open>COOCHBEHAR UTTAR (SC)\<close>.
\<close>

lemma findACNumberByName_never_canonical:
  assumes "findACNumberByName data' ''West Bengal'' ''Cooch Behar Uttar'' = Some k"
  shows "\<exists>acsOfState d. map_of data' ''West Bengal'' = Some acsOfState \<and> (k, d) \<in> set acsOfState
           \<and> bundled_ac_name d \<noteq> Some ''COOCHBEHAR UTTAR (SC)''"
proof -
  from assms obtain acsOfState where m: "map_of data' ''West Bengal'' = Some acsOfState"
    and l: "find_ac_loop ''cooch behar uttar'' acsOfState = Some k"
    by (auto simp: findACNumberByName_def canonical_name_forms Let_def
          split: option.splits if_splits)
  from find_ac_loop_Some[OF l] obtain d n where d: "(k, d) \<in> set acsOfState"
    "bundled_ac_name d = Some n"
    and acc: "collapse_ws (toLowerCase (trim n)) = ''cooch behar uttar''
            \<or> includes_str (collapse_ws (toLowerCase (trim n))) ''cooch behar uttar''
            \<or> includes_str ''cooch behar uttar'' (trim (strip_parens (collapse_ws (toLowerCase (trim n)))))
            \<or> trim (strip_parens (collapse_ws (toLowerCase (trim n))))
                = trim (strip_parens ''cooch behar uttar'')"
    by blast
  have "n \<noteq> ''COOCHBEHAR UTTAR (SC)''"
  proof
    assume "n = ''COOCHBEHAR UTTAR (SC)''"
    with acc show False
      by (simp add: canonical_name_forms canonical_entry_not_accepted)
  qed
  with m d show ?thesis by auto
qed

text \<open>
  C7. On the dataset whose constituency 3 of West Bengal is \<open>COOCHBEHAR UTTAR (SC)\<close>,
  the canonical name resolves to 3, and \<open>Cooch Behar Uttar\<close> resolves to nothing:
  no comparison of \<open>findACNumberByName\<close> removes the space inside the name. The table
  of \<open>normalizeACName\<close> maps the variant to the canonical name, and with it the lookup
  finds 3; \<open>findACNumberByName\<close> does not consult the table.
\<close>

theorem findACNumberByName_misses_spelling_variant:
  "findACNumberByName canonical_dataset ''West Bengal'' ''COOCHBEHAR UTTAR (SC)'' = Some ''3''
   \<and> findACNumberByName canonical_dataset ''West Bengal'' ''Cooch Behar Uttar'' = None
   \<and> normalizeACName ''Cooch Behar Uttar'' = ''COOCHBEHAR UTTAR (SC)''
   \<and> findACNumberByName canonical_dataset ''West Bengal'' (normalizeACName ''Cooch Behar Uttar'')
       = Some ''3''"
proof -
  have a: "findACNumberByName canonical_dataset ''West Bengal'' ''COOCHBEHAR UTTAR (SC)'' = Some ''3''"
    by code_simp
  have b: "findACNumberByName canonical_dataset ''West Bengal'' ''Cooch Behar Uttar'' = None"
    by code_simp
  have c: "normalizeACName ''Cooch Behar Uttar'' = ''COOCHBEHAR UTTAR (SC)''"
    by code_simp
  from a b c show ?thesis by simp
qed

section \<open>Properties of the bulk provisioning\<close>

text \<open>A run that starts ends with the busy flag clear.\<close>

lemma downloadDependentDataForSurveys_clears_flag:
  "\<not> isDownloading svc \<Longrightarrow>
     \<not> isDownloading (downloadDependentDataForSurveys remote acData now surveys includeGPS svc)"
  by (simp add: downloadDependentDataForSurveys_def Let_def)

text \<open>
  A run that starts does write: with the survey assigned to one constituency, the quota
  of the survey and the user are fetched and cached.
\<close>

lemma downloadDependentDataForSurveys_idle_run:
  "user_data (storage (downloadDependentDataForSurveys example_api Map.empty ''2026-01-01''
                         [example_survey] True idle_service))
     = Some \<lparr>uc_user = ''{interviewer}'', uc_cachedAt = ''2026-01-01''\<rparr>
   \<and> clock (storage (downloadDependentDataForSurveys example_api Map.empty ''2026-01-01''
                         [example_survey] True idle_service)) = 3
   \<and> \<not> isDownloading (downloadDependentDataForSurveys example_api Map.empty ''2026-01-01''
                         [example_survey] True idle_service)"
  by (simp add: downloadDependentDataForSurveys_def provision_def collect_assignedACs_def
        collect_states_def collect_surveyIds_def survey_acs_def assignment_acs_def set_add_def
        survey_key_def or_else_def truthy_def bundled_getAllACsForState_def
        cache_gender_quotas_def cache_cati_set_number_def cache_user_def saveGenderQuotas_def
        getAllGenderQuotas_def saveUserData_def getItem_def setItem_def tick_def
        example_api_def example_survey_def idle_service_def empty_store_def Let_def)

text \<open>
  With no constituency assigned, the run caches the bundled list of the state and reads
  it back through \<open>getAllACsForState\<close>; a bundled list under the floor is evicted by
  that read, nothing else is provisioned, and the run makes seven storage calls.
\<close>

lemma downloadDependentDataForSurveys_unassigned_run:
  "clock (storage (downloadDependentDataForSurveys example_api short_ac_data ''2026-01-01''
                     [unassigned_survey] True idle_service)) = 7
   \<and> map_option (\<lambda>m. m ''West Bengal'')
        (all_acs_for_state (storage (downloadDependentDataForSurveys example_api short_ac_data
                                       ''2026-01-01'' [unassigned_survey] True idle_service)))
       = Some None
   \<and> user_data (storage (downloadDependentDataForSurveys example_api short_ac_data ''2026-01-01''
                           [unassigned_survey] True idle_service)) = None"
  by (simp add: downloadDependentDataForSurveys_def provision_def collect_assignedACs_def
        collect_states_def collect_surveyIds_def survey_acs_def assignment_acs_def set_add_def
        survey_key_def or_else_def truthy_def bundled_getAllACsForState_def
        saveAllACsForState_def getAllACsForState_def clearACsForState_def
        getAllACsForAllStates_def minExpectedACs_def getItem_def setItem_def tick_def
        example_api_def example_survey_def unassigned_survey_def short_ac_data_def
        idle_service_def empty_store_def Let_def)

text \<open>
  C9. A call of \<open>downloadDependentDataForSurveys\<close> made while the busy flag is set
  returns the service as it found it: no storage call is made (the store and its call
  count are unchanged), the flag stays set, and nothing is recorded for later.
\<close>

theorem downloadDependentDataForSurveys_busy_noop:
  assumes "isDownloading svc"
  shows "downloadDependentDataForSurveys remote acData now surveys includeGPS svc = svc"
proof -
  from assms show ?thesis
    unfolding downloadDependentDataForSurveys_def by (rule if_P)
qed

theorem downloadDependentDataForSurveys_busy_noop_witness:
  "isDownloading busy_service
   \<and> downloadDependentDataForSurveys example_api Map.empty ''2026-01-01'' [example_survey] True
        busy_service = busy_service
   \<and> user_data (storage (downloadDependentDataForSurveys example_api Map.empty ''2026-01-01''
                           [example_survey] True busy_service)) = None"
proof -
  have b: "isDownloading busy_service"
    by (simp add: busy_service_def)
  have "user_data (storage busy_service) = None"
    by (simp add: busy_service_def empty_store_def)
  with b downloadDependentDataForSurveys_busy_noop[OF b, of example_api Map.empty
      "''2026-01-01''" "[example_survey]" True]
  show ?thesis by simp
qed


end
